theory Spec2Isabelle
  imports Complex_Main "HOL-Library.Word"
begin

section \<open>Strings of the host language\<close>

text \<open>
  The strings the program handles (data URLs, MIME types, error messages, the text of
  the upstream response) are modelled as \<open>string\<close>, one \<open>char\<close> per code unit below 256.
  The strings inside a parsed JSON value can hold any code unit (through \<open>\uXXXX\<close>
  escapes), so they are lists of code units, \<open>nat list\<close>.
\<close>

type_synonym jsstring = "nat list"

definition js :: "string \<Rightarrow> jsstring" where
  "js s = map of_char s"

text \<open>\<open>String.prototype.split(sep)\<close> for a separator of one character.\<close>

fun split_str :: "char \<Rightarrow> string \<Rightarrow> string list" where
  "split_str sep [] = [[]]"
| "split_str sep (c # cs) =
     (if c = sep then [] # split_str sep cs
      else (case split_str sep cs of
              [] \<Rightarrow> [[c]]
            | p # ps \<Rightarrow> (c # p) # ps))"

text \<open>
  The regular expression \<open>/:(.*?);/\<close> of \<open>fileToPart\<close>. The dot matches every
  character but a line terminator; the lazy star stops at the first semicolon. The
  leftmost colon from which that works gives the match; the result is capture group 1.
\<close>

definition isLineTerminator :: "char \<Rightarrow> bool" where
  "isLineTerminator c = (c = CHR 0x0A \<or> c = CHR 0x0D)"

fun lazy_until_semicolon :: "string \<Rightarrow> string \<Rightarrow> string option" where
  "lazy_until_semicolon acc [] = None"
| "lazy_until_semicolon acc (c # cs) =
     (if c = CHR '';'' then Some (rev acc)
      else if isLineTerminator c then None
      else lazy_until_semicolon (c # acc) cs)"

fun match_mime :: "string \<Rightarrow> string option" where
  "match_mime [] = None"
| "match_mime (c # cs) =
     (if c = CHR '':'' then
        (case lazy_until_semicolon [] cs of
           Some g \<Rightarrow> Some g
         | None \<Rightarrow> match_mime cs)
      else match_mime cs)"

text \<open>
  \<open>String.prototype.trim\<close>: white space and line terminators are removed at both ends
  (the ones with a code unit below 256: TAB, LF, VT, FF, CR, SP, NBSP).
\<close>

definition isTrimSpace :: "char \<Rightarrow> bool" where
  "isTrimSpace c = (c \<in> {CHR 0x09, CHR 0x0A, CHR 0x0B, CHR 0x0C, CHR 0x0D, CHR 0x20, CHR 0xA0})"

definition trim :: "string \<Rightarrow> string" where
  "trim s = rev (dropWhile isTrimSpace (rev (dropWhile isTrimSpace s)))"

section \<open>Files and the browser's file reader\<close>

text \<open>
  A \<open>File\<close> object: its identity (two objects with the same content are still two
  objects, which is what React compares), its name, its declared type and its bytes.
  \<open>Picked n\<close> is the \<open>n\<close>-th object handed over by a file input; \<open>Copy r\<close> is the object made
  by \<open>new File([f], ...)\<close> from the object \<open>r\<close>.
\<close>

datatype ref = Picked nat | Copy ref

type_synonym byte = "8 word"

record File =
  file_ref :: ref
  file_name :: string
  file_type :: string
  file_bytes :: "byte list"

text \<open>
  A thrown value: an instance of \<open>Error\<close> with its message, or anything else (the
  \<open>ProgressEvent\<close> a failing \<open>FileReader\<close> rejects with, for one).
\<close>

datatype thrown = Error string | NonError

definition b64chars :: string where
  "b64chars = ''ABCDEFGHIJKLMNOPQRSTUVWXYZabcdefghijklmnopqrstuvwxyz0123456789+/''"

definition b64 :: "nat \<Rightarrow> char" where
  "b64 i = b64chars ! (i mod 64)"

fun base64_encode :: "byte list \<Rightarrow> string" where
  "base64_encode [] = []"
| "base64_encode [a] =
     [b64 (unat a div 4), b64 ((unat a mod 4) * 16), CHR ''='', CHR ''='']"
| "base64_encode [a, b] =
     [b64 (unat a div 4), b64 ((unat a mod 4) * 16 + unat b div 16),
      b64 ((unat b mod 16) * 4), CHR ''='']"
| "base64_encode (a # b # c # rest) =
     [b64 (unat a div 4), b64 ((unat a mod 4) * 16 + unat b div 16),
      b64 ((unat b mod 16) * 4 + unat c div 64), b64 (unat c mod 64)]
     @ base64_encode rest"

definition b64index :: "char \<Rightarrow> nat option" where
  "b64index c = map_of (zip b64chars [0 ..< 64]) c"

definition decode_group :: "char \<Rightarrow> char \<Rightarrow> char \<Rightarrow> char \<Rightarrow> byte list option" where
  "decode_group p q r s =
     (case (b64index p, b64index q) of
        (Some i, Some j) \<Rightarrow>
          (if r = CHR ''='' \<and> s = CHR ''='' then Some [of_nat (i * 4 + j div 16)]
           else (case b64index r of
                   None \<Rightarrow> None
                 | Some k \<Rightarrow>
                     (if s = CHR ''='' then
                        Some [of_nat (i * 4 + j div 16), of_nat ((j mod 16) * 16 + k div 4)]
                      else (case b64index s of
                              None \<Rightarrow> None
                            | Some l \<Rightarrow>
                                Some [of_nat (i * 4 + j div 16),
                                      of_nat ((j mod 16) * 16 + k div 4),
                                      of_nat ((k mod 4) * 64 + l)]))))
      | _ \<Rightarrow> None)"

text \<open>
  Decoding, as the receiver of the payload does it: groups of four characters, padding
  only in the last group.
\<close>

fun base64_decode :: "string \<Rightarrow> byte list option" where
  "base64_decode [] = Some []"
| "base64_decode (p # q # r # s # rest) =
     (if s = CHR ''='' \<and> rest \<noteq> [] then None
      else (case decode_group p q r s of
              None \<Rightarrow> None
            | Some bs \<Rightarrow>
                (case base64_decode rest of
                   None \<Rightarrow> None
                 | Some bs' \<Rightarrow> Some (bs @ bs'))))"
| "base64_decode _ = None"

text \<open>
  \<open>FileReader.readAsDataURL\<close> of the browser, when the read succeeds: the declared type
  of the file (\<open>application/octet-stream\<close> for a file without one), then the bytes in
  base64.
\<close>

definition dataUrlType :: "File \<Rightarrow> string" where
  "dataUrlType f = (if file_type f = [] then ''application/octet-stream'' else file_type f)"

definition readAsDataURL :: "File \<Rightarrow> thrown + string" where
  "readAsDataURL f = Inr (''data:'' @ dataUrlType f @ '';base64,'' @ base64_encode (file_bytes f))"

section \<open>The image-to-payload encoder\<close>

record inlineData =
  mimeType :: string
  data :: string

text \<open>
  \<open>fileToPart\<close>. The reader is the environment's: it resolves with a data URL or rejects.
\<close>

definition fileToPart :: "(File \<Rightarrow> thrown + string) \<Rightarrow> File \<Rightarrow> thrown + inlineData" where
  "fileToPart reader f =
     (case reader f of
        Inl e \<Rightarrow> Inl e
      | Inr dataUrl \<Rightarrow>
          (let arr = split_str (CHR '','') dataUrl in
           if length arr < 2 then Inl (Error ''Invalid data URL'')
           else (case match_mime (arr ! 0) of
                   None \<Rightarrow> Inl (Error ''Could not parse MIME type from data URL'')
                 | Some g \<Rightarrow>
                     (if g = [] then Inl (Error ''Could not parse MIME type from data URL'')
                      else Inr \<lparr>mimeType = g, data = arr ! 1\<rparr>))))"

section \<open>JSON values and \<open>JSON.parse\<close>\<close>

text \<open>
  A parsed value. An object keeps its members in the order of the text; a number is
  the exact value of its literal.
\<close>

datatype json =
    JNull
  | JBool bool
  | JNumber rat
  | JString jsstring
  | JArray "json list"
  | JObject "(jsstring \<times> json) list"

datatype token =
    TLBrace | TRBrace | TLBracket | TRBracket | TColon | TComma
  | TString jsstring
  | TScalar json

definition isDigit :: "char \<Rightarrow> bool" where
  "isDigit c = (48 \<le> (of_char c :: nat) \<and> (of_char c :: nat) \<le> 57)"

definition isLower :: "char \<Rightarrow> bool" where
  "isLower c = (97 \<le> (of_char c :: nat) \<and> (of_char c :: nat) \<le> 122)"

definition isNumberChar :: "char \<Rightarrow> bool" where
  "isNumberChar c = (isDigit c \<or> c \<in> {CHR ''-'', CHR ''+'', CHR ''.'', CHR ''e'', CHR ''E''})"

definition isJsonSpace :: "char \<Rightarrow> bool" where
  "isJsonSpace c = (c \<in> {CHR 0x20, CHR 0x09, CHR 0x0A, CHR 0x0D})"

definition digits_value :: "string \<Rightarrow> nat" where
  "digits_value ds = foldl (\<lambda>n c. 10 * n + (of_char c - 48)) 0 ds"

definition hex_value :: "char \<Rightarrow> nat option" where
  "hex_value c =
     (let n = (of_char c :: nat) in
      if 48 \<le> n \<and> n \<le> 57 then Some (n - 48)
      else if 97 \<le> n \<and> n \<le> 102 then Some (n - 87)
      else if 65 \<le> n \<and> n \<le> 70 then Some (n - 55)
      else None)"

text \<open>
  The number grammar of JSON: an optional minus, an integer part without a leading
  zero, an optional fraction, an optional exponent. The result is the value denoted.
\<close>

definition strip_sign :: "string \<Rightarrow> bool \<times> string" where
  "strip_sign s =
     (case s of
        [] \<Rightarrow> (False, [])
      | c # cs \<Rightarrow>
          (if c = CHR ''-'' then (True, cs)
           else if c = CHR ''+'' then (False, cs)
           else (False, s)))"

definition parse_exponent :: "string \<Rightarrow> int option" where
  "parse_exponent s =
     (case s of
        [] \<Rightarrow> Some 0
      | c # cs \<Rightarrow>
          (if c = CHR ''e'' \<or> c = CHR ''E'' then
             (let (neg, ds) = strip_sign cs in
              if ds = [] \<or> \<not> list_all isDigit ds then None
              else Some (if neg then - int (digits_value ds) else int (digits_value ds)))
           else None))"

definition parse_fraction :: "string \<Rightarrow> (string \<times> string) option" where
  "parse_fraction s =
     (case s of
        [] \<Rightarrow> Some ([], [])
      | c # cs \<Rightarrow>
          (if c = CHR ''.'' then
             (if takeWhile isDigit cs = [] then None
              else Some (takeWhile isDigit cs, dropWhile isDigit cs))
           else Some ([], s)))"

definition parse_number :: "string \<Rightarrow> rat option" where
  "parse_number s =
     (let (neg, s1) = (case s of
                         [] \<Rightarrow> (False, [])
                       | c # cs \<Rightarrow> if c = CHR ''-'' then (True, cs) else (False, s));
          ip = takeWhile isDigit s1;
          s2 = dropWhile isDigit s1
      in if ip = [] \<or> (1 < length ip \<and> hd ip = CHR ''0'') then None
         else (case parse_fraction s2 of
                 None \<Rightarrow> None
               | Some (fp, s3) \<Rightarrow>
                   (case parse_exponent s3 of
                      None \<Rightarrow> None
                    | Some e \<Rightarrow>
                        (let m = of_nat (digits_value (ip @ fp)) * (10::rat) powi (e - int (length fp))
                         in Some (if neg then - m else m)))))"

definition parse_literal :: "string \<Rightarrow> json option" where
  "parse_literal w =
     (if w = ''true'' then Some (JBool True)
      else if w = ''false'' then Some (JBool False)
      else if w = ''null'' then Some JNull
      else None)"

definition escape_value :: "char \<Rightarrow> nat option" where
  "escape_value c =
     (if c = CHR 0x22 then Some 0x22
      else if c = CHR 0x5C then Some 0x5C
      else if c = CHR ''/'' then Some 0x2F
      else if c = CHR ''b'' then Some 0x08
      else if c = CHR ''f'' then Some 0x0C
      else if c = CHR ''n'' then Some 0x0A
      else if c = CHR ''r'' then Some 0x0D
      else if c = CHR ''t'' then Some 0x09
      else None)"

text \<open>
  The lexer reads one character at a time. Its state: between tokens, inside a string
  (the code units so far, last first), after a backslash, inside a \<open>\u\<close> escape (with
  the hexadecimal digits read), inside a number or inside a literal name.
\<close>

datatype lexstate =
    LIdle
  | LString jsstring
  | LEscape jsstring
  | LUnicode jsstring "nat list"
  | LNumber string
  | LWord string

definition lex_idle :: "token list \<Rightarrow> char \<Rightarrow> (lexstate \<times> token list) option" where
  "lex_idle acc c =
     (if isJsonSpace c then Some (LIdle, acc)
      else if c = CHR ''{'' then Some (LIdle, TLBrace # acc)
      else if c = CHR ''}'' then Some (LIdle, TRBrace # acc)
      else if c = CHR ''['' then Some (LIdle, TLBracket # acc)
      else if c = CHR '']'' then Some (LIdle, TRBracket # acc)
      else if c = CHR '':'' then Some (LIdle, TColon # acc)
      else if c = CHR '','' then Some (LIdle, TComma # acc)
      else if c = CHR 0x22 then Some (LString [], acc)
      else if c = CHR ''-'' \<or> isDigit c then Some (LNumber [c], acc)
      else if isLower c then Some (LWord [c], acc)
      else None)"

definition lex_step :: "lexstate \<Rightarrow> token list \<Rightarrow> char \<Rightarrow> (lexstate \<times> token list) option" where
  "lex_step st acc c =
     (case st of
        LIdle \<Rightarrow> lex_idle acc c
      | LString s \<Rightarrow>
          (if c = CHR 0x22 then Some (LIdle, TString (rev s) # acc)
           else if c = CHR 0x5C then Some (LEscape s, acc)
           else if (of_char c :: nat) < 0x20 then None
           else Some (LString (of_char c # s), acc))
      | LEscape s \<Rightarrow>
          (if c = CHR ''u'' then Some (LUnicode s [], acc)
           else (case escape_value c of
                   None \<Rightarrow> None
                 | Some n \<Rightarrow> Some (LString (n # s), acc)))
      | LUnicode s hs \<Rightarrow>
          (case hex_value c of
             None \<Rightarrow> None
           | Some h \<Rightarrow>
               (if length hs = 3
                then Some (LString (foldl (\<lambda>n d. 16 * n + d) 0 (hs @ [h]) # s), acc)
                else Some (LUnicode s (hs @ [h]), acc)))
      | LNumber n \<Rightarrow>
          (if isNumberChar c then Some (LNumber (c # n), acc)
           else (case parse_number (rev n) of
                   None \<Rightarrow> None
                 | Some q \<Rightarrow> lex_idle (TScalar (JNumber q) # acc) c))
      | LWord w \<Rightarrow>
          (if isLower c then Some (LWord (c # w), acc)
           else (case parse_literal (rev w) of
                   None \<Rightarrow> None
                 | Some v \<Rightarrow> lex_idle (TScalar v # acc) c)))"

fun lex_run :: "lexstate \<Rightarrow> token list \<Rightarrow> string \<Rightarrow> (lexstate \<times> token list) option" where
  "lex_run st acc [] = Some (st, acc)"
| "lex_run st acc (c # cs) =
     (case lex_step st acc c of
        None \<Rightarrow> None
      | Some (st', acc') \<Rightarrow> lex_run st' acc' cs)"

definition lex_end :: "lexstate \<Rightarrow> token list \<Rightarrow> token list option" where
  "lex_end st acc =
     (case st of
        LIdle \<Rightarrow> Some (rev acc)
      | LNumber n \<Rightarrow> map_option (\<lambda>q. rev (TScalar (JNumber q) # acc)) (parse_number (rev n))
      | LWord w \<Rightarrow> map_option (\<lambda>v. rev (TScalar v # acc)) (parse_literal (rev w))
      | _ \<Rightarrow> None)"

definition tokenize :: "string \<Rightarrow> token list option" where
  "tokenize s =
     (case lex_run LIdle [] s of
        None \<Rightarrow> None
      | Some (st, acc) \<Rightarrow> lex_end st acc)"

text \<open>
  The parser reads one token at a time and keeps the open arrays and objects on a
  stack (their members so far, last first).
\<close>

datatype frame =
    FArray "json list"
  | FObject "(jsstring \<times> json) list"
  | FMember "(jsstring \<times> json) list" jsstring

datatype expect =
    EValue
  | EValueOrClose
  | EKey
  | EKeyOrClose
  | EColon
  | ECommaOrClose
  | EDone json

definition put_value :: "json \<Rightarrow> frame list \<Rightarrow> (expect \<times> frame list) option" where
  "put_value v st =
     (case st of
        [] \<Rightarrow> Some (EDone v, [])
      | FArray xs # r \<Rightarrow> Some (ECommaOrClose, FArray (v # xs) # r)
      | FMember kvs k # r \<Rightarrow> Some (ECommaOrClose, FObject ((k, v) # kvs) # r)
      | FObject kvs # r \<Rightarrow> None)"

definition start_value :: "token \<Rightarrow> frame list \<Rightarrow> (expect \<times> frame list) option" where
  "start_value t st =
     (case t of
        TScalar v \<Rightarrow> put_value v st
      | TString s \<Rightarrow> put_value (JString s) st
      | TLBracket \<Rightarrow> Some (EValueOrClose, FArray [] # st)
      | TLBrace \<Rightarrow> Some (EKeyOrClose, FObject [] # st)
      | _ \<Rightarrow> None)"

definition close_array :: "frame list \<Rightarrow> (expect \<times> frame list) option" where
  "close_array st =
     (case st of
        FArray xs # r \<Rightarrow> put_value (JArray (rev xs)) r
      | _ \<Rightarrow> None)"

definition close_object :: "frame list \<Rightarrow> (expect \<times> frame list) option" where
  "close_object st =
     (case st of
        FObject kvs # r \<Rightarrow> put_value (JObject (rev kvs)) r
      | _ \<Rightarrow> None)"

definition take_key :: "token \<Rightarrow> frame list \<Rightarrow> (expect \<times> frame list) option" where
  "take_key t st =
     (case (t, st) of
        (TString k, FObject kvs # r) \<Rightarrow> Some (EColon, FMember kvs k # r)
      | _ \<Rightarrow> None)"

definition parse_step :: "expect \<Rightarrow> frame list \<Rightarrow> token \<Rightarrow> (expect \<times> frame list) option" where
  "parse_step e st t =
     (case e of
        EValue \<Rightarrow> start_value t st
      | EValueOrClose \<Rightarrow> (if t = TRBracket then close_array st else start_value t st)
      | EKey \<Rightarrow> take_key t st
      | EKeyOrClose \<Rightarrow> (if t = TRBrace then close_object st else take_key t st)
      | EColon \<Rightarrow> (if t = TColon then Some (EValue, st) else None)
      | ECommaOrClose \<Rightarrow>
          (if t = TComma then
             (case st of
                FArray xs # r \<Rightarrow> Some (EValue, st)
              | FObject kvs # r \<Rightarrow> Some (EKey, st)
              | _ \<Rightarrow> None)
           else if t = TRBracket then close_array st
           else if t = TRBrace then close_object st
           else None)
      | EDone v \<Rightarrow> None)"

fun parse_run :: "expect \<Rightarrow> frame list \<Rightarrow> token list \<Rightarrow> json option" where
  "parse_run e st [] = (case e of EDone v \<Rightarrow> Some v | _ \<Rightarrow> None)"
| "parse_run e st (t # ts) =
     (case parse_step e st t of
        None \<Rightarrow> None
      | Some (e', st') \<Rightarrow> parse_run e' st' ts)"

text \<open>\<open>JSON.parse\<close>: \<open>None\<close> is the \<open>SyntaxError\<close>.\<close>

definition JSON_parse :: "string \<Rightarrow> json option" where
  "JSON_parse s =
     (case tokenize s of
        None \<Rightarrow> None
      | Some ts \<Rightarrow> parse_run EValue [] ts)"

section \<open>The analysis client\<close>

text \<open>
  What the client reads of the upstream response: \<open>promptFeedback?.blockReason\<close>
  (\<open>None\<close> when the feedback or the reason is missing) and \<open>text\<close> (undefined when the
  response has no text part).
\<close>

record response =
  blockReason :: "string option"
  response_text :: "string option"

text \<open>
  The environment of one call: what the file reader gives for a file, what
  \<open>new GoogleGenAI(...)\<close> gives (it throws without a key; otherwise there is a client),
  and what the upstream service answers to the request made through that client. The
  prompt, the schema and the model name are constants of the request, so the answer is
  a function of the image part.
\<close>

record world =
  reader :: "File \<Rightarrow> thrown + string"
  client :: "thrown + (inlineData \<Rightarrow> thrown + response)"

text \<open>\<open>ai.models.generateContent\<close>, for the client \<open>ai\<close> of the environment.\<close>

definition generateContent :: "world \<Rightarrow> inlineData \<Rightarrow> thrown + response" where
  "generateContent w imagePart =
     (case client w of
        Inl e \<Rightarrow> Inl e
      | Inr ai \<Rightarrow> ai imagePart)"

definition blockedMessage :: "string \<Rightarrow> string" where
  "blockedMessage reason =
     ''Request was blocked due to: '' @ reason @ ''. This may be due to safety settings.''"

definition invalidResponseMessage :: string where
  "invalidResponseMessage =
     ''The AI returned an invalid response. Please try again with a clearer image.''"

text \<open>The \<open>TypeError\<close> of \<open>response.text.trim()\<close> when \<open>text\<close> is undefined.\<close>

definition undefinedTextMessage :: string where
  "undefinedTextMessage = ''Cannot read properties of undefined (reading 'trim')''"

text \<open>
  The test \<open>if (x)\<close> on a string that may be missing: it passes for a string that is
  there and not empty.
\<close>

definition truthyString :: "string option \<Rightarrow> string option" where
  "truthyString x =
     (case x of
        None \<Rightarrow> None
      | Some str \<Rightarrow> if str = [] then None else Some str)"

definition analyzeFoodImage :: "world \<Rightarrow> File \<Rightarrow> thrown + json" where
  "analyzeFoodImage w imageFile =
     (case client w of
        Inl e \<Rightarrow> Inl e
      | Inr ai \<Rightarrow>
          (case fileToPart (reader w) imageFile of
             Inl e \<Rightarrow> Inl e
           | Inr imagePart \<Rightarrow>
               (case ai imagePart of
                  Inl e \<Rightarrow> Inl e
                | Inr resp \<Rightarrow>
                    (case truthyString (blockReason resp) of
                       Some reason \<Rightarrow> Inl (Error (blockedMessage reason))
                     | None \<Rightarrow>
                         (case response_text resp of
                            None \<Rightarrow> Inl (Error undefinedTextMessage)
                          | Some t \<Rightarrow>
                              (case JSON_parse (trim t) of
                                 Some parsedJson \<Rightarrow> Inr parsedJson
                               | None \<Rightarrow> Inl (Error invalidResponseMessage)))))))"

section \<open>The application state controller\<close>

text \<open>
  The five state variables of \<open>App\<close>, and what the runtime holds beside them: whether
  the component is mounted, the object URL the last run of the effect will revoke on
  cleanup, the analysis calls that have not settled (each with the file it was given),
  the object URLs that exist, and the log of every \<open>revokeObjectURL\<close>.
  \<open>analysis\<close> is \<open>JNull\<close> for \<open>null\<close>.
\<close>

record app =
  imageFile :: "File option"
  analysis :: json
  isLoading :: bool
  error :: "string option"
  imageUrl :: "nat option"
  mounted :: bool
  cleanup :: "nat option"
  inflight :: "(nat \<times> File) list"
  nextCall :: nat
  nextUrl :: nat
  liveUrls :: "nat list"
  revokeLog :: "nat list"

definition init :: app where
  "init = \<lparr>imageFile = None, analysis = JNull, isLoading = False, error = None,
            imageUrl = None, mounted = True, cleanup = None, inflight = [],
            nextCall = 0, nextUrl = 0, liveUrls = [], revokeLog = []\<rparr>"

definition handleFileSelect :: "File list option \<Rightarrow> app \<Rightarrow> app" where
  "handleFileSelect files s =
     (case files of
        None \<Rightarrow> s
      | Some [] \<Rightarrow> s
      | Some (f # rest) \<Rightarrow> s\<lparr>error := None, analysis := JNull, imageFile := Some f\<rparr>)"

definition handleReset :: "app \<Rightarrow> app" where
  "handleReset s =
     s\<lparr>imageFile := None, imageUrl := None, analysis := JNull, error := None,
       isLoading := False\<rparr>"

text \<open>
  The click handler of the Try Again button. \<open>new File([f], f.name, {type: f.type})\<close>
  is another object with the bytes and the name of \<open>f\<close>; the constructor puts the
  type in lower case, which the type of a \<open>File\<close> already is, so the type is that of \<open>f\<close>.
  (Its \<open>lastModified\<close>, which nothing reads, is not part of the record.)
\<close>

definition newFile :: "File \<Rightarrow> File" where
  "newFile f =
     \<lparr>file_ref = Copy (file_ref f), file_name = file_name f, file_type = file_type f,
      file_bytes = file_bytes f\<rparr>"

definition tryAgain :: "app \<Rightarrow> app" where
  "tryAgain s =
     (case imageFile s of
        None \<Rightarrow> s
      | Some f \<Rightarrow> s\<lparr>imageFile := Some (newFile f)\<rparr>)"

text \<open>
  The effect on \<open>[imageFile]\<close>. Its cleanup revokes the URL of the run before; its body
  returns at once without a file, and otherwise creates the preview URL, sets the
  state for loading and starts the analysis call.
\<close>

definition run_cleanup :: "app \<Rightarrow> app" where
  "run_cleanup s =
     (case cleanup s of
        None \<Rightarrow> s
      | Some url \<Rightarrow>
          s\<lparr>cleanup := None, liveUrls := removeAll url (liveUrls s),
            revokeLog := url # revokeLog s\<rparr>)"

definition run_effect :: "app \<Rightarrow> app" where
  "run_effect s =
     (case imageFile s of
        None \<Rightarrow> s
      | Some f \<Rightarrow>
          s\<lparr>imageUrl := Some (nextUrl s), isLoading := True, error := None,
            analysis := JNull, cleanup := Some (nextUrl s),
            inflight := inflight s @ [(nextCall s, f)],
            nextCall := Suc (nextCall s), nextUrl := Suc (nextUrl s),
            liveUrls := nextUrl s # liveUrls s\<rparr>)"

text \<open>
  After a handler, React renders again and runs the effect if \<open>imageFile\<close> is another
  object than before (or went from or to \<open>null\<close>).
\<close>

definition commit :: "File option \<Rightarrow> app \<Rightarrow> app" where
  "commit before s =
     (if map_option file_ref before = map_option file_ref (imageFile s) then s
      else run_effect (run_cleanup s))"

text \<open>The rest of \<open>performAnalysis\<close>, once the call has settled.\<close>

definition errorMessage :: "thrown \<Rightarrow> string" where
  "errorMessage err = (case err of Error m \<Rightarrow> m | NonError \<Rightarrow> ''An unknown error occurred.'')"

definition settle :: "thrown + json \<Rightarrow> app \<Rightarrow> app" where
  "settle outcome s =
     (case outcome of
        Inr result \<Rightarrow> s\<lparr>analysis := result, isLoading := False\<rparr>
      | Inl err \<Rightarrow>
          s\<lparr>error := Some (''Failed to analyze the image. '' @ errorMessage err),
            isLoading := False\<rparr>)"

section \<open>The presentation layer\<close>

text \<open>
  Reading a property of a parsed value: of an object, the last member with that name;
  of anything else, \<open>undefined\<close> (\<open>None\<close>). None of the names read here is a built-in
  property of a string, a number, a boolean or an array. Reading a property of \<open>null\<close>
  or \<open>undefined\<close> throws, which the callers check first.
\<close>

definition getProp :: "json \<Rightarrow> string \<Rightarrow> json option" where
  "getProp v name = (case v of JObject kvs \<Rightarrow> map_of (rev kvs) (js name) | _ \<Rightarrow> None)"

text \<open>
  Truthiness. A number literal is falsy when its value rounds to zero as a double:
  when it is at most \<open>2^-1075\<close> in magnitude.
\<close>

definition truthy :: "json \<Rightarrow> bool" where
  "truthy v =
     (case v of
        JNull \<Rightarrow> False
      | JBool b \<Rightarrow> b
      | JNumber q \<Rightarrow> 1 / 2 ^ 1075 < \<bar>q\<bar>
      | JString s \<Rightarrow> s \<noteq> []
      | JArray xs \<Rightarrow> True
      | JObject kvs \<Rightarrow> True)"

definition truthy_prop :: "json option \<Rightarrow> bool" where
  "truthy_prop p = (case p of None \<Rightarrow> False | Some v \<Rightarrow> truthy v)"

text \<open>
  A value as a React child: an object makes React throw, an array is rendered member
  by member, everything else (\<open>undefined\<close> too) is text or nothing.
\<close>

fun validChild :: "json \<Rightarrow> bool" where
  "validChild (JObject kvs) = False"
| "validChild (JArray xs) = list_all validChild xs"
| "validChild v = True"

definition validChildProp :: "json option \<Rightarrow> bool" where
  "validChildProp p = (case p of None \<Rightarrow> True | Some v \<Rightarrow> validChild v)"

text \<open>\<open>x.map(item => <li>{item}</li>)\<close>: \<open>x\<close> has to be an array, of valid children.\<close>

definition mapsToItems :: "json option \<Rightarrow> bool" where
  "mapsToItems p = (case p of Some (JArray xs) \<Rightarrow> list_all validChild xs | _ \<Rightarrow> False)"

text \<open>
  Whether the result block renders without a throw: \<open>recipe\<close> and \<open>nutrition\<close> are
  dereferenced, \<open>ingredients\<close> and \<open>steps\<close> are mapped, the other fields are children.
\<close>

definition resultRenders :: "json \<Rightarrow> bool" where
  "resultRenders a =
     (validChildProp (getProp a ''dishName'')
      \<and> (case getProp a ''recipe'' of
            None \<Rightarrow> False
          | Some r \<Rightarrow> r \<noteq> JNull \<and> mapsToItems (getProp r ''ingredients'')
                       \<and> mapsToItems (getProp r ''steps''))
      \<and> (case getProp a ''nutrition'' of
            None \<Rightarrow> False
          | Some n \<Rightarrow> n \<noteq> JNull \<and> validChildProp (getProp n ''calories'')
                       \<and> validChildProp (getProp n ''protein'')
                       \<and> validChildProp (getProp n ''carbs'')
                       \<and> validChildProp (getProp n ''fat''))
      \<and> validChildProp (getProp a ''healthierVariation'')
      \<and> validChildProp (getProp a ''friendlyAdvice''))"

datatype view = StartView | LoadingView | ErrorView string | NonFoodView | ResultView json

text \<open>
  \<open>renderContent\<close>: the views it puts on the page, in order; \<open>None\<close> when rendering
  throws.
\<close>

definition renderContent :: "app \<Rightarrow> view list option" where
  "renderContent s =
     (if imageFile s = None \<or> imageUrl s = None then Some [StartView]
      else if truthy (analysis s) \<and> truthy_prop (getProp (analysis s) ''isFood'')
              \<and> \<not> resultRenders (analysis s) then None
      else Some
        ((if isLoading s then [LoadingView] else [])
         @ (case error s of
              None \<Rightarrow> []
            | Some msg \<Rightarrow> if msg = [] then [] else [ErrorView msg])
         @ (if truthy (analysis s) \<and> \<not> truthy_prop (getProp (analysis s) ''isFood'')
            then [NonFoodView] else [])
         @ (if truthy (analysis s) \<and> truthy_prop (getProp (analysis s) ''isFood'')
            then [ResultView (analysis s)] else [])))"

section \<open>The component over time\<close>

text \<open>
  The unmounting runs the cleanup of the effect. It happens when the tree is removed,
  and also when rendering throws: \<open>App\<close> has no error boundary, so React removes the
  whole tree.
\<close>

definition unmount :: "app \<Rightarrow> app" where
  "unmount s = (run_cleanup s)\<lparr>mounted := False\<rparr>"

definition rendered :: "app \<Rightarrow> app" where
  "rendered s = (if renderContent s = None then unmount s else s)"

text \<open>
  What can happen to the component: the three user actions, the settling of a call in
  flight in some environment, and the unmounting. An unmounted component ignores
  everything. After each change of the state the component is rendered again; only
  after the settling of a call can that throw (the handlers and the effect leave the
  analysis \<open>null\<close> or no file selected).
\<close>

datatype event =
    FileSelect "File list option"
  | Reset
  | TryAgain
  | Settle nat world
  | Unmount

definition step :: "event \<Rightarrow> app \<Rightarrow> app" where
  "step ev s =
     (if \<not> mounted s then s
      else (case ev of
              FileSelect files \<Rightarrow> commit (imageFile s) (handleFileSelect files s)
            | Reset \<Rightarrow> commit (imageFile s) (handleReset s)
            | TryAgain \<Rightarrow> commit (imageFile s) (tryAgain s)
            | Settle c w \<Rightarrow>
                (case map_of (inflight s) c of
                   None \<Rightarrow> s
                 | Some f \<Rightarrow>
                     rendered
                       (settle (analyzeFoodImage w f)
                          (s\<lparr>inflight := filter (\<lambda>p. fst p \<noteq> c) (inflight s)\<rparr>)))
            | Unmount \<Rightarrow> unmount s))"

fun run :: "event list \<Rightarrow> app \<Rightarrow> app" where
  "run [] s = s"
| "run (ev # evs) s = run evs (step ev s)"

section \<open>Well-formed runtime states\<close>


text \<open>The calls in flight carry numbers handed out before: the next number is new.\<close>

definition calls_fresh :: "app \<Rightarrow> bool" where
  "calls_fresh s = list_all (\<lambda>p. fst p < nextCall s) (inflight s)"

section \<open>Example inputs\<close>

definition png_file :: File where
  "png_file =
     \<lparr>file_ref = Picked 0, file_name = ''pancakes.png'', file_type = ''image/png'',
      file_bytes = [0x89, 0x50, 0x4E, 0x47, 0x0D]\<rparr>"

definition jpeg_file :: File where
  "jpeg_file =
     \<lparr>file_ref = Picked 1, file_name = ''car.jpg'', file_type = ''image/jpeg'',
      file_bytes = [0xFF, 0xD8, 0xFF]\<rparr>"

definition svg_file :: File where
  "svg_file =
     \<lparr>file_ref = Picked 2, file_name = ''logo.svg'',
      file_type = ''image/svg+xml;charset=utf-8'',
      file_bytes = [0x3C, 0x73, 0x76, 0x67, 0x2F, 0x3E]\<rparr>"

definition untyped_file :: File where
  "untyped_file =
     \<lparr>file_ref = Picked 3, file_name = ''photo.heic'', file_type = [],
      file_bytes = [0x00, 0x00, 0x00]\<rparr>"

text \<open>A complete answer for a plate of pancakes, and the value it parses to.\<close>

definition pancakes_body :: string where
  \<open>pancakes_body = ''{"isFood": true, "dishName": "Pancakes", "recipe": {"ingredients": ["flour", "egg"], "steps": ["mix", "cook"]}, "nutrition": {"calories": "350 kcal", "protein": "8g", "carbs": "50g", "fat": "10g"}, "healthierVariation": "Use whole wheat flour."}''\<close>

definition pancakes :: json where
  "pancakes =
     JObject
       [(js ''isFood'', JBool True),
        (js ''dishName'', JString (js ''Pancakes'')),
        (js ''recipe'',
           JObject [(js ''ingredients'', JArray [JString (js ''flour''), JString (js ''egg'')]),
                    (js ''steps'', JArray [JString (js ''mix''), JString (js ''cook'')])]),
        (js ''nutrition'',
           JObject [(js ''calories'', JString (js ''350 kcal'')),
                    (js ''protein'', JString (js ''8g'')),
                    (js ''carbs'', JString (js ''50g'')),
                    (js ''fat'', JString (js ''10g''))]),
        (js ''healthierVariation'', JString (js ''Use whole wheat flour.''))]"

text \<open>An environment where the read succeeds and the service answers with a body.\<close>

definition answering :: "string \<Rightarrow> world" where
  "answering body =
     \<lparr>reader = readAsDataURL,
      client = Inr (\<lambda>part. Inr \<lparr>blockReason = None, response_text = Some body\<rparr>)\<rparr>"

text \<open>An environment where the service declines with a reason.\<close>

definition blocking :: "string \<Rightarrow> string \<Rightarrow> world" where
  "blocking reason body =
     \<lparr>reader = readAsDataURL,
      client = Inr (\<lambda>part. Inr \<lparr>blockReason = Some reason, response_text = Some body\<rparr>)\<rparr>"

section \<open>Base64 and the encoder\<close>

lemma b64chars_distinct: "distinct b64chars"
  unfolding b64chars_def by simp

lemma b64chars_length: "length b64chars = 64"
  unfolding b64chars_def by simp

lemma b64_in_alphabet: "b64 i \<in> set b64chars"
  by (simp add: b64_def b64chars_length)


lemma b64index_b64: "b64index (b64 i) = Some (i mod 64)"
proof -
  have lt: "i mod 64 < 64" by simp
  have "map_of (zip b64chars [0 ..< 64]) (b64chars ! (i mod 64)) = Some ([0 ..< 64] ! (i mod 64))"
    by (rule map_of_zip_nth) (simp_all add: b64chars_length b64chars_distinct)
  moreover have "[0 ..< 64] ! (i mod 64) = i mod 64"
    using lt by (metis add_0 nth_upt)
  ultimately show ?thesis by (simp only: b64index_def b64_def)
qed


lemma pad_not_in_alphabet: "CHR ''='' \<notin> set b64chars"
  unfolding b64chars_def by simp

lemma comma_not_in_alphabet: "CHR '','' \<notin> set b64chars"
  unfolding b64chars_def by simp

lemma b64_not_pad: "b64 i \<noteq> CHR ''=''"
  using b64_in_alphabet [of i] pad_not_in_alphabet by metis

lemma b64_not_comma: "b64 i \<noteq> CHR '',''"
  using b64_in_alphabet [of i] comma_not_in_alphabet by metis

lemma b64index_sextet: "i < 64 \<Longrightarrow> b64index (b64 i) = Some i"
  by (simp add: b64index_b64)

lemma byte_bound: "unat (a :: byte) < 256"
  using unsigned_less [of a, where ?'a = nat] by simp


lemma div_bound:
  "(x::nat) < 256 \<Longrightarrow> x div 4 < 64"
  "(x::nat) < 256 \<Longrightarrow> x div 16 < 16"
  "(x::nat) < 256 \<Longrightarrow> x div 64 < 4"
  by (simp_all add: less_mult_imp_div_less)

lemma pack16:
  "u < 16 \<Longrightarrow> (r * 16 + u) div 16 = (r::nat)"
  "u < 16 \<Longrightarrow> (r * 16 + u) mod 16 = (u::nat)"
  by simp_all

lemma pack4:
  "u < 4 \<Longrightarrow> (r * 4 + u) div 4 = (r::nat)"
  "u < 4 \<Longrightarrow> (r * 4 + u) mod 4 = (u::nat)"
  by simp_all

lemma pack_bound:
  "r < 4 \<Longrightarrow> u < 16 \<Longrightarrow> r * 16 + u < (64::nat)"
  "r < 16 \<Longrightarrow> v < 4 \<Longrightarrow> r * 4 + v < (64::nat)"
  by linarith+

lemma pack_bound0:
  "r < 4 \<Longrightarrow> r * 16 < (64::nat)"
  "r < 16 \<Longrightarrow> r * 4 < (64::nat)"
  by linarith+

lemma unpack:
  "(x::nat) div 4 * 4 + x mod 4 = x"
  "(x::nat) div 16 * 16 + x mod 16 = x"
  "(x::nat) div 64 * 64 + x mod 64 = x"
  by simp_all

lemma decode_sextets_full:
  assumes "i < 64" "j < 64" "k < 64" "l < 64"
  shows "decode_group (b64 i) (b64 j) (b64 k) (b64 l) =
           Some [of_nat (i * 4 + j div 16), of_nat ((j mod 16) * 16 + k div 4),
                 of_nat ((k mod 4) * 64 + l)]"
  unfolding decode_group_def
  by (simp add: b64index_sextet assms b64_not_pad)

lemma decode_sextets_two:
  assumes "i < 64" "j < 64" "k < 64"
  shows "decode_group (b64 i) (b64 j) (b64 k) (CHR ''='') =
           Some [of_nat (i * 4 + j div 16), of_nat ((j mod 16) * 16 + k div 4)]"
  unfolding decode_group_def
  by (simp add: b64index_sextet assms b64_not_pad)

lemma decode_sextets_one:
  assumes "i < 64" "j < 64"
  shows "decode_group (b64 i) (b64 j) (CHR ''='') (CHR ''='') = Some [of_nat (i * 4 + j div 16)]"
  unfolding decode_group_def
  by (simp add: b64index_sextet assms)

lemma bytes_of_sextets:
  fixes x y z :: nat
  assumes "y < 256" "z < 256"
  shows "x div 4 * 4 + ((x mod 4) * 16 + y div 16) div 16 = x"
    and "((x mod 4) * 16 + y div 16) mod 16 * 16 + ((y mod 16) * 4 + z div 64) div 4 = y"
    and "((y mod 16) * 4 + z div 64) mod 4 * 64 + z mod 64 = z"
  using assms by (simp_all add: pack16 pack4 div_bound unpack)

lemma bytes_of_sextets_two:
  fixes x y :: nat
  assumes "y < 256"
  shows "x div 4 * 4 + ((x mod 4) * 16 + y div 16) div 16 = x"
    and "((x mod 4) * 16 + y div 16) mod 16 * 16 + ((y mod 16) * 4) div 4 = y"
  using assms by (simp_all add: pack16 div_bound unpack)

lemma sextet_bounds:
  fixes x y z :: nat
  assumes "x < 256" "y < 256" "z < 256"
  shows "x div 4 < 64" "(x mod 4) * 16 + y div 16 < 64" "(y mod 16) * 4 + z div 64 < 64"
    "z mod 64 < 64" "(x mod 4) * 16 < 64" "(y mod 16) * 4 < 64"
  using assms by (simp_all add: div_bound pack_bound pack_bound0)


lemma decode_group_full:
  "decode_group (b64 (unat a div 4)) (b64 ((unat a mod 4) * 16 + unat b div 16))
     (b64 ((unat b mod 16) * 4 + unat c div 64)) (b64 (unat c mod 64)) = Some [a, b, c]"
proof -
  define x y z where "x = unat a" and "y = unat b" and "z = unat c"
  have bounds: "x < 256" "y < 256" "z < 256"
    by (simp_all add: x_def y_def z_def byte_bound)
  have "decode_group (b64 (x div 4)) (b64 ((x mod 4) * 16 + y div 16))
          (b64 ((y mod 16) * 4 + z div 64)) (b64 (z mod 64))
        = Some [of_nat x, of_nat y, of_nat z]"
    by (simp only: decode_sextets_full [OF sextet_bounds(1-4) [OF bounds]]
          bytes_of_sextets [OF bounds(2,3)])
  then show ?thesis unfolding x_def y_def z_def by simp
qed

lemma decode_group_two:
  "decode_group (b64 (unat a div 4)) (b64 ((unat a mod 4) * 16 + unat b div 16))
     (b64 ((unat b mod 16) * 4)) (CHR ''='') = Some [a, b]"
proof -
  define x y where "x = unat a" and "y = unat b"
  have bounds: "x < 256" "y < 256" "y < 256"
    by (simp_all add: x_def y_def byte_bound)
  have "decode_group (b64 (x div 4)) (b64 ((x mod 4) * 16 + y div 16))
          (b64 ((y mod 16) * 4)) (CHR ''='') = Some [of_nat x, of_nat y]"
    by (simp only: decode_sextets_two [OF sextet_bounds(1,2,6) [OF bounds]]
          bytes_of_sextets_two [OF bounds(2)])
  then show ?thesis unfolding x_def y_def by simp
qed

lemma decode_group_one:
  "decode_group (b64 (unat a div 4)) (b64 ((unat a mod 4) * 16)) (CHR ''='') (CHR ''='') = Some [a]"
proof -
  define x where "x = unat a"
  have bounds: "x < 256" "x < 256" "x < 256"
    by (simp_all add: x_def byte_bound)
  have "x div 4 * 4 + ((x mod 4) * 16) div 16 = x"
    by (simp add: unpack)
  then have "decode_group (b64 (x div 4)) (b64 ((x mod 4) * 16)) (CHR ''='') (CHR ''='')
        = Some [of_nat x]"
    by (simp only: decode_sextets_one [OF sextet_bounds(1,5) [OF bounds]])
  then show ?thesis unfolding x_def by simp
qed

lemma base64_roundtrip: "base64_decode (base64_encode bs) = Some bs"
proof (induction bs rule: base64_encode.induct)
  case 1
  show ?case by simp
next
  case (2 a)
  show ?case by (simp add: decode_group_one)
next
  case (3 a b)
  show ?case by (simp add: decode_group_two)
next
  case (4 a b c rest)
  then show ?case by (simp add: decode_group_full b64_not_pad)
qed

lemma base64_no_comma: "CHR '','' \<notin> set (base64_encode bs)"
  by (induction bs rule: base64_encode.induct) (simp_all add: b64_not_comma [THEN not_sym])


lemma split_str_none: "sep \<notin> set xs \<Longrightarrow> split_str sep xs = [xs]"
  by (induction xs) auto

lemma split_str_once:
  "sep \<notin> set xs \<Longrightarrow> sep \<notin> set ys \<Longrightarrow> split_str sep (xs @ sep # ys) = [xs, ys]"
  by (induction xs) (auto simp: split_str_none)

lemma lazy_until_semicolon_stops:
  "CHR '';'' \<notin> set t \<Longrightarrow> \<forall>c \<in> set t. \<not> isLineTerminator c \<Longrightarrow>
   lazy_until_semicolon acc (t @ CHR '';'' # post) = Some (rev acc @ t)"
  by (induction t arbitrary: acc) auto

lemma match_mime_first_colon:
  "CHR '':'' \<notin> set pre \<Longrightarrow> CHR '';'' \<notin> set t \<Longrightarrow> \<forall>c \<in> set t. \<not> isLineTerminator c \<Longrightarrow>
   match_mime (pre @ CHR '':'' # t @ CHR '';'' # post) = Some t"
  by (induction pre) (auto simp: lazy_until_semicolon_stops)

lemma header_split:
  "\<exists>post. t @ CHR '';'' # ''base64'' = takeWhile (\<lambda>c. c \<noteq> CHR '';'') t @ CHR '';'' # post"
proof (cases "dropWhile (\<lambda>c. c \<noteq> CHR '';'') t")
  case Nil
  then have tw: "takeWhile (\<lambda>c. c \<noteq> CHR '';'') t = t"
    by (simp add: takeWhile_eq_all_conv)
  show ?thesis
    by (rule exI [of _ "''base64''"]) (simp only: tw)
next
  case (Cons c r)
  then have "c = CHR '';''"
    using hd_dropWhile [of "\<lambda>c. c \<noteq> CHR '';''" t] by auto
  then have "t = takeWhile (\<lambda>c. c \<noteq> CHR '';'') t @ CHR '';'' # r"
    using Cons takeWhile_dropWhile_id [of "\<lambda>c. c \<noteq> CHR '';''" t] by simp
  then have "t @ CHR '';'' # ''base64'' =
      takeWhile (\<lambda>c. c \<noteq> CHR '';'') t @ CHR '';'' # (r @ CHR '';'' # ''base64'')"
    by (metis append_Cons append_assoc)
  then show ?thesis by blast
qed

lemma fileToPart_readAsDataURL:
  assumes "CHR '','' \<notin> set (dataUrlType f)"
    and "\<forall>c \<in> set (dataUrlType f). \<not> isLineTerminator c"
    and "takeWhile (\<lambda>c. c \<noteq> CHR '';'') (dataUrlType f) \<noteq> []"
  shows "fileToPart readAsDataURL f =
           Inr \<lparr>mimeType = takeWhile (\<lambda>c. c \<noteq> CHR '';'') (dataUrlType f),
                data = base64_encode (file_bytes f)\<rparr>"
proof -
  let ?t = "dataUrlType f"
  let ?g = "takeWhile (\<lambda>c. c \<noteq> CHR '';'') ?t"
  let ?head = "''data:'' @ ?t @ '';base64''"
  let ?payload = "base64_encode (file_bytes f)"
  have url: "readAsDataURL f = Inr (?head @ CHR '','' # ?payload)"
    by (simp add: readAsDataURL_def)
  have "CHR '','' \<notin> set ?head" using assms(1) by simp
  then have sp: "split_str (CHR '','') (?head @ CHR '','' # ?payload) = [?head, ?payload]"
    using base64_no_comma by (rule split_str_once)
  obtain post where post: "?t @ CHR '';'' # ''base64'' = ?g @ CHR '';'' # post"
    using header_split by blast
  have g1: "CHR '';'' \<notin> set ?g"
    by (auto dest: set_takeWhileD)
  have g2: "\<forall>c \<in> set ?g. \<not> isLineTerminator c"
    using assms(2) by (auto dest: set_takeWhileD)
  have "match_mime (''data'' @ CHR '':'' # ?g @ CHR '';'' # post) = Some ?g"
    using g1 g2 by (intro match_mime_first_colon) simp_all
  moreover have "?head = ''data'' @ CHR '':'' # (?t @ CHR '';'' # ''base64'')" by simp
  ultimately have mm: "match_mime ?head = Some ?g"
    unfolding post by simp
  show ?thesis
    unfolding fileToPart_def url sum.case sp Let_def
    using mm assms(3) by simp
qed

lemma bare_type_kept:
  assumes "takeWhile (\<lambda>c. c \<noteq> CHR '';'') (dataUrlType f) \<noteq> []"
  shows "(takeWhile (\<lambda>c. c \<noteq> CHR '';'') (dataUrlType f) = file_type f)
         = (file_type f \<noteq> [] \<and> CHR '';'' \<notin> set (file_type f))"
proof (cases "file_type f = []")
  case True
  then show ?thesis using assms by auto
next
  case False
  then have "dataUrlType f = file_type f" by (simp add: dataUrlType_def)
  then show ?thesis using False by (auto simp: takeWhile_eq_all_conv)
qed


text \<open>
  Claim C4, as stated, fails. A file whose declared type has a parameter is read into a
  well-formed data URL, and the part carries the type cut before the parameter; a file
  without a declared type is read into a well-formed data URL, and the part carries
  \<open>application/octet-stream\<close>. In both the \<open>mimeType\<close> is not the declared type.
\<close>

theorem declared_type_counterexample:
  "readAsDataURL svg_file = Inr ''data:image/svg+xml;charset=utf-8;base64,PHN2Zy8+''
   \<and> fileToPart readAsDataURL svg_file = Inr \<lparr>mimeType = ''image/svg+xml'', data = ''PHN2Zy8+''\<rparr>
   \<and> file_type svg_file = ''image/svg+xml;charset=utf-8''
   \<and> readAsDataURL untyped_file = Inr ''data:application/octet-stream;base64,AAAA''
   \<and> fileToPart readAsDataURL untyped_file =
       Inr \<lparr>mimeType = ''application/octet-stream'', data = ''AAAA''\<rparr>
   \<and> file_type untyped_file = []"
proof -
  have e1: "base64_encode (file_bytes svg_file) = ''PHN2Zy8+''"
    by (simp add: svg_file_def b64_def b64chars_def)
  have e2: "base64_encode (file_bytes untyped_file) = ''AAAA''"
    by (simp add: untyped_file_def b64_def b64chars_def)
  have t1: "dataUrlType svg_file = ''image/svg+xml;charset=utf-8''"
    by (simp add: dataUrlType_def svg_file_def)
  have t2: "dataUrlType untyped_file = ''application/octet-stream''"
    by (simp add: dataUrlType_def untyped_file_def)
  have r1: "readAsDataURL svg_file = Inr ''data:image/svg+xml;charset=utf-8;base64,PHN2Zy8+''"
    by (simp add: readAsDataURL_def t1 e1)
  have r2: "readAsDataURL untyped_file = Inr ''data:application/octet-stream;base64,AAAA''"
    by (simp add: readAsDataURL_def t2 e2)
  have p1: "fileToPart readAsDataURL svg_file = Inr \<lparr>mimeType = ''image/svg+xml'', data = ''PHN2Zy8+''\<rparr>"
    using fileToPart_readAsDataURL [of svg_file]
    by (simp add: t1 e1 isLineTerminator_def)
  have p2: "fileToPart readAsDataURL untyped_file =
       Inr \<lparr>mimeType = ''application/octet-stream'', data = ''AAAA''\<rparr>"
    using fileToPart_readAsDataURL [of untyped_file]
    by (simp add: t2 e2 isLineTerminator_def)
  have f1: "file_type svg_file = ''image/svg+xml;charset=utf-8''" by (simp add: svg_file_def)
  have f2: "file_type untyped_file = []" by (simp add: untyped_file_def)
  show ?thesis using r1 p1 f1 r2 p2 f2 by (intro conjI)
qed

text \<open>
  Claim C4, amended. Take the type the browser writes into the data URL: the declared
  type of the file, or \<open>application/octet-stream\<close> for a file without one. If it has no
  comma and no line break and does not begin with a semicolon, \<open>fileToPart\<close> returns a
  part whose \<open>mimeType\<close> is that type cut before its first semicolon and whose \<open>data\<close>
  decodes from base64 to exactly the bytes of the file. So the \<open>mimeType\<close> is the declared
  type of the file exactly when the file has a declared type without a semicolon.
\<close>

theorem fileToPart_type_and_payload:
  assumes "CHR '','' \<notin> set (dataUrlType f)"
    and "\<forall>c \<in> set (dataUrlType f). \<not> isLineTerminator c"
    and "takeWhile (\<lambda>c. c \<noteq> CHR '';'') (dataUrlType f) \<noteq> []"
  shows "\<exists>part. fileToPart readAsDataURL f = Inr part
           \<and> mimeType part = takeWhile (\<lambda>c. c \<noteq> CHR '';'') (dataUrlType f)
           \<and> base64_decode (data part) = Some (file_bytes f)
           \<and> (mimeType part = file_type f)
               = (file_type f \<noteq> [] \<and> CHR '';'' \<notin> set (file_type f))"
  using fileToPart_readAsDataURL [OF assms] bare_type_kept [OF assms(3)]
  by (simp add: base64_roundtrip)

theorem fileToPart_type_and_payload_witness:
  "fileToPart readAsDataURL png_file = Inr \<lparr>mimeType = ''image/png'', data = ''iVBORw0=''\<rparr>
   \<and> base64_decode ''iVBORw0='' = Some [0x89, 0x50, 0x4E, 0x47, 0x0D]"
proof -
  have t: "dataUrlType png_file = ''image/png''"
    by (simp add: dataUrlType_def png_file_def)
  have h: "CHR '','' \<notin> set (dataUrlType png_file)"
    "\<forall>c \<in> set (dataUrlType png_file). \<not> isLineTerminator c"
    "takeWhile (\<lambda>c. c \<noteq> CHR '';'') (dataUrlType png_file) \<noteq> []"
    by (simp_all add: t isLineTerminator_def)
  have e: "base64_encode (file_bytes png_file) = ''iVBORw0=''"
    by (simp add: png_file_def b64_def b64chars_def)
  have p: "fileToPart readAsDataURL png_file = Inr \<lparr>mimeType = ''image/png'', data = ''iVBORw0=''\<rparr>"
    using fileToPart_readAsDataURL [OF h] e by (simp add: t)
  obtain part where part: "fileToPart readAsDataURL png_file = Inr part"
    and dec: "base64_decode (data part) = Some (file_bytes png_file)"
    using fileToPart_type_and_payload [OF h] by blast
  have d: "data part = ''iVBORw0=''"
    using p part by simp
  have b: "file_bytes png_file = [0x89, 0x50, 0x4E, 0x47, 0x0D]"
    by (simp add: png_file_def)
  have "base64_decode ''iVBORw0='' = Some [0x89, 0x50, 0x4E, 0x47, 0x0D]"
    using dec unfolding d b .
  with p show ?thesis by (rule conjI)
qed

section \<open>The analysis client and the settling of a call\<close>

lemma analyze_blocked:
  assumes "fileToPart (reader w) f = Inr part"
    and "generateContent w part = Inr resp"
    and "blockReason resp = Some X"
    and "X \<noteq> []"
  shows "analyzeFoodImage w f = Inl (Error (blockedMessage X))"
  using assms
  by (cases "client w") (simp_all add: analyzeFoodImage_def generateContent_def truthyString_def)

lemma analyze_not_blocked:
  assumes "fileToPart (reader w) f = Inr part"
    and "generateContent w part = Inr resp"
    and "blockReason resp = None \<or> blockReason resp = Some []"
    and "response_text resp = Some body"
  shows "analyzeFoodImage w f =
           (case JSON_parse (trim body) of
              Some parsedJson \<Rightarrow> Inr parsedJson
            | None \<Rightarrow> Inl (Error invalidResponseMessage))"
  using assms
  by (cases "client w") (auto simp: analyzeFoodImage_def generateContent_def truthyString_def)

lemma blocked_not_invalid: "blockedMessage X \<noteq> invalidResponseMessage"
  by (simp add: blockedMessage_def invalidResponseMessage_def)

lemma step_Settle:
  assumes "mounted s" and "map_of (inflight s) c = Some f"
  shows "step (Settle c w) s =
           rendered (settle (analyzeFoodImage w f)
             (s\<lparr>inflight := filter (\<lambda>p. fst p \<noteq> c) (inflight s)\<rparr>))"
  using assms by (simp add: step_def)

lemma rendered_fields:
  "analysis (rendered s) = analysis s \<and> error (rendered s) = error s
   \<and> isLoading (rendered s) = isLoading s \<and> imageFile (rendered s) = imageFile s
   \<and> imageUrl (rendered s) = imageUrl s \<and> inflight (rendered s) = inflight s
   \<and> nextCall (rendered s) = nextCall s \<and> nextUrl (rendered s) = nextUrl s"
  by (simp add: rendered_def unmount_def run_cleanup_def split: option.splits)

lemma renderContent_rendered: "renderContent (rendered s) = renderContent s"
  using rendered_fields [of s] by (simp add: renderContent_def)

lemma rendered_mounted: "mounted (rendered s) = (mounted s \<and> renderContent s \<noteq> None)"
  by (simp add: rendered_def unmount_def)

lemma rendered_same: "renderContent s \<noteq> None \<Longrightarrow> rendered s = s"
  by (auto simp: rendered_def)

lemma settle_fields:
  "mounted (settle outcome s) = mounted s \<and> inflight (settle outcome s) = inflight s
   \<and> imageFile (settle outcome s) = imageFile s \<and> imageUrl (settle outcome s) = imageUrl s
   \<and> \<not> isLoading (settle outcome s)
   \<and> analysis (settle outcome s) = (case outcome of Inr r \<Rightarrow> r | Inl e \<Rightarrow> analysis s)
   \<and> error (settle outcome s) =
       (case outcome of
          Inr r \<Rightarrow> error s
        | Inl e \<Rightarrow> Some (''Failed to analyze the image. '' @ errorMessage e))"
  by (cases outcome) (simp_all add: settle_def)

text \<open>The state variables after the settling of a call, whether or not rendering throws.\<close>

lemma Settle_fields:
  assumes "mounted s" and "map_of (inflight s) c = Some f"
  shows "analysis (step (Settle c w) s) =
           (case analyzeFoodImage w f of Inr r \<Rightarrow> r | Inl e \<Rightarrow> analysis s)
         \<and> error (step (Settle c w) s) =
           (case analyzeFoodImage w f of
              Inr r \<Rightarrow> error s
            | Inl e \<Rightarrow> Some (''Failed to analyze the image. '' @ errorMessage e))
         \<and> \<not> isLoading (step (Settle c w) s)
         \<and> imageFile (step (Settle c w) s) = imageFile s
         \<and> imageUrl (step (Settle c w) s) = imageUrl s
         \<and> inflight (step (Settle c w) s) = filter (\<lambda>p. fst p \<noteq> c) (inflight s)"
  unfolding step_Settle [OF assms]
  by (cases "analyzeFoodImage w f") (simp_all add: rendered_fields settle_fields)

lemma Settle_render:
  assumes "mounted s" and "map_of (inflight s) c = Some f"
  shows "renderContent (step (Settle c w) s) = renderContent (settle (analyzeFoodImage w f) s)"
  unfolding step_Settle [OF assms] renderContent_rendered
  by (cases "analyzeFoodImage w f") (simp_all add: renderContent_def settle_fields)

lemma settle_failure:
  "settle (Inl e) s = s\<lparr>error := Some (''Failed to analyze the image. '' @ errorMessage e), isLoading := False\<rparr>"
  by (simp add: settle_def)

lemma settle_success:
  "settle (Inr j) s = s\<lparr>analysis := j, isLoading := False\<rparr>"
  by (simp add: settle_def)

lemma fileToPart_png:
  "fileToPart readAsDataURL png_file =
     Inr \<lparr>mimeType = ''image/png'', data = base64_encode (file_bytes png_file)\<rparr>"
  using fileToPart_readAsDataURL [of png_file]
  by (simp add: dataUrlType_def png_file_def isLineTerminator_def)

lemma fileToPart_jpeg:
  "fileToPart readAsDataURL jpeg_file =
     Inr \<lparr>mimeType = ''image/jpeg'', data = base64_encode (file_bytes jpeg_file)\<rparr>"
  using fileToPart_readAsDataURL [of jpeg_file]
  by (simp add: dataUrlType_def jpeg_file_def isLineTerminator_def)

text \<open>
  Claim C10. When the upstream response carries a block reason (a non-empty string, the
  test being JavaScript truthiness), \<open>analyzeFoodImage\<close> fails with the blocked-request
  error whatever the body is, and not with the invalid-response error: the block check
  comes before the body is parsed, and the two messages differ.
\<close>

theorem block_check_precedes_parse:
  assumes "fileToPart (reader w) f = Inr part"
    and "generateContent w part = Inr resp"
    and "blockReason resp = Some X"
    and "X \<noteq> []"
  shows "analyzeFoodImage w f = Inl (Error (blockedMessage X))
         \<and> analyzeFoodImage w f \<noteq> Inl (Error invalidResponseMessage)"
  using analyze_blocked [OF assms] by (simp add: blocked_not_invalid)

theorem block_check_precedes_parse_witness:
  \<open>fileToPart (reader (blocking ''SAFETY'' ''not json'')) png_file
     = Inr \<lparr>mimeType = ''image/png'', data = base64_encode (file_bytes png_file)\<rparr>
   \<and> generateContent (blocking ''SAFETY'' ''not json'')
        \<lparr>mimeType = ''image/png'', data = base64_encode (file_bytes png_file)\<rparr>
     = Inr \<lparr>blockReason = Some ''SAFETY'', response_text = Some ''not json''\<rparr>
   \<and> blockReason \<lparr>blockReason = Some ''SAFETY'', response_text = Some ''not json''\<rparr> = Some ''SAFETY''
   \<and> ''SAFETY'' \<noteq> []
   \<and> JSON_parse (trim ''not json'') = None
   \<and> analyzeFoodImage (blocking ''SAFETY'' ''not json'') png_file
     = Inl (Error ''Request was blocked due to: SAFETY. This may be due to safety settings.'')
   \<and> analyzeFoodImage (blocking ''SAFETY'' ''not json'') png_file
     \<noteq> Inl (Error invalidResponseMessage)\<close>
proof -
  have a: "fileToPart (reader (blocking ''SAFETY'' ''not json'')) png_file
     = Inr \<lparr>mimeType = ''image/png'', data = base64_encode (file_bytes png_file)\<rparr>"
    by (simp add: blocking_def fileToPart_png)
  have b: "generateContent (blocking ''SAFETY'' ''not json'')
        \<lparr>mimeType = ''image/png'', data = base64_encode (file_bytes png_file)\<rparr>
     = Inr \<lparr>blockReason = Some ''SAFETY'', response_text = Some ''not json''\<rparr>"
    by (simp add: blocking_def generateContent_def)
  have c: "blockReason \<lparr>blockReason = Some ''SAFETY'', response_text = Some ''not json''\<rparr> = Some ''SAFETY''"
    by simp
  have d: "''SAFETY'' \<noteq> []" by simp
  have e: "JSON_parse (trim ''not json'') = None"
    by code_simp
  show ?thesis
    using a b c d e block_check_precedes_parse [OF a b c d]
    by (simp add: blockedMessage_def invalidResponseMessage_def)
qed


lemmas run_defs = step_def commit_def handleFileSelect_def handleReset_def tryAgain_def
  run_effect_def run_cleanup_def settle_def init_def newFile_def

lemma selected_png:
  "step (FileSelect (Some [png_file])) init =
     \<lparr>imageFile = Some png_file, analysis = JNull, isLoading = True, error = None,
      imageUrl = Some 0, mounted = True, cleanup = Some 0, inflight = [(0, png_file)],
      nextCall = 1, nextUrl = 1, liveUrls = [0], revokeLog = []\<rparr>"
  by (simp add: run_defs)




lemma analyze_answering_png:
  "analyzeFoodImage (answering body) png_file =
     (case JSON_parse (trim body) of
        Some parsedJson \<Rightarrow> Inr parsedJson
      | None \<Rightarrow> Inl (Error invalidResponseMessage))"
  by (rule analyze_not_blocked [where resp = "\<lparr>blockReason = None, response_text = Some body\<rparr>"])
     (simp_all add: answering_def generateContent_def fileToPart_png)

lemma analyze_answering_jpeg:
  "analyzeFoodImage (answering body) jpeg_file =
     (case JSON_parse (trim body) of
        Some parsedJson \<Rightarrow> Inr parsedJson
      | None \<Rightarrow> Inl (Error invalidResponseMessage))"
  by (rule analyze_not_blocked [where resp = "\<lparr>blockReason = None, response_text = Some body\<rparr>"])
     (simp_all add: answering_def generateContent_def fileToPart_jpeg)





lemma parse_prose: "JSON_parse (trim ''Here is your recipe: {}'') = None"
  by code_simp



lemma step_Settle_ok:
  assumes "mounted s" and "map_of (inflight s) c = Some f"
    and "renderContent (settle (analyzeFoodImage w f) s) \<noteq> None"
  shows "step (Settle c w) s =
           settle (analyzeFoodImage w f) (s\<lparr>inflight := filter (\<lambda>p. fst p \<noteq> c) (inflight s)\<rparr>)"
proof -
  have "renderContent (settle (analyzeFoodImage w f)
          (s\<lparr>inflight := filter (\<lambda>p. fst p \<noteq> c) (inflight s)\<rparr>))
        = renderContent (settle (analyzeFoodImage w f) s)"
    by (cases "analyzeFoodImage w f") (simp_all add: renderContent_def settle_def)
  then show ?thesis
    unfolding step_Settle [OF assms(1,2)] using assms(3) by (simp add: rendered_same)
qed

lemma reset_png:
  "step Reset (step (FileSelect (Some [png_file])) init) =
     \<lparr>imageFile = None, analysis = JNull, isLoading = False, error = None,
      imageUrl = None, mounted = True, cleanup = None, inflight = [(0, png_file)],
      nextCall = 1, nextUrl = 1, liveUrls = [], revokeLog = [0]\<rparr>"
  unfolding selected_png
  by (simp add: step_def commit_def handleReset_def run_effect_def run_cleanup_def)

lemma reselected_jpeg:
  "step (FileSelect (Some [jpeg_file])) (step Reset (step (FileSelect (Some [png_file])) init)) =
     \<lparr>imageFile = Some jpeg_file, analysis = JNull, isLoading = True, error = None,
      imageUrl = Some 1, mounted = True, cleanup = Some 1,
      inflight = [(0, png_file), (1, jpeg_file)],
      nextCall = 2, nextUrl = 2, liveUrls = [1], revokeLog = [0]\<rparr>"
  unfolding reset_png
  by (simp add: step_def commit_def handleFileSelect_def run_effect_def run_cleanup_def)

lemma parse_not_food_short:
  \<open>JSON_parse (trim ''{"isFood": false}'') = Some (JObject [(js ''isFood'', JBool False)])\<close>
  by code_simp

text \<open>
  Claim C5, as stated, fails. The call of an image selected before fails late, while
  the call of the image selected now is in flight; when that call settles with
  \<open>isFood: false\<close>, the error of the first call is still set and is rendered beside the
  non-food view. And when the answer \<open>isFood: false\<close> arrives after a reset, the start
  view is what is rendered, not the non-food view.
\<close>

theorem not_food_counterexample:
  \<open>error (run [FileSelect (Some [png_file]), Reset, FileSelect (Some [jpeg_file]),
               Settle 0 (answering ''Here is your recipe: {}''),
               Settle 1 (answering ''{"isFood": false}'')] init)
     = Some ''Failed to analyze the image. The AI returned an invalid response. Please try again with a clearer image.''
   \<and> analysis (run [FileSelect (Some [png_file]), Reset, FileSelect (Some [jpeg_file]),
               Settle 0 (answering ''Here is your recipe: {}''),
               Settle 1 (answering ''{"isFood": false}'')] init)
     = JObject [(js ''isFood'', JBool False)]
   \<and> renderContent (run [FileSelect (Some [png_file]), Reset, FileSelect (Some [jpeg_file]),
               Settle 0 (answering ''Here is your recipe: {}''),
               Settle 1 (answering ''{"isFood": false}'')] init)
     = Some [ErrorView ''Failed to analyze the image. The AI returned an invalid response. Please try again with a clearer image.'',
             NonFoodView]
   \<and> analysis (run [FileSelect (Some [png_file]), Reset,
               Settle 0 (answering ''{"isFood": false}'')] init)
     = JObject [(js ''isFood'', JBool False)]
   \<and> renderContent (run [FileSelect (Some [png_file]), Reset,
               Settle 0 (answering ''{"isFood": false}'')] init)
     = Some [StartView]\<close>
proof -
  let ?wA = \<open>answering ''Here is your recipe: {}''\<close>
  let ?wB = \<open>answering ''{"isFood": false}''\<close>
  define s where
    "s = step (FileSelect (Some [jpeg_file])) (step Reset (step (FileSelect (Some [png_file])) init))"
  define s0 where "s0 = step Reset (step (FileSelect (Some [png_file])) init)"
  have s: "s = \<lparr>imageFile = Some jpeg_file, analysis = JNull, isLoading = True, error = None,
      imageUrl = Some 1, mounted = True, cleanup = Some 1,
      inflight = [(0, png_file), (1, jpeg_file)],
      nextCall = 2, nextUrl = 2, liveUrls = [1], revokeLog = [0]\<rparr>"
    unfolding s_def by (rule reselected_jpeg)
  have s0: "s0 = \<lparr>imageFile = None, analysis = JNull, isLoading = False, error = None,
      imageUrl = None, mounted = True, cleanup = None, inflight = [(0, png_file)],
      nextCall = 1, nextUrl = 1, liveUrls = [], revokeLog = [0]\<rparr>"
    unfolding s0_def by (rule reset_png)
  have b: "analyzeFoodImage ?wB jpeg_file = Inr (JObject [(js ''isFood'', JBool False)])"
    by (simp only: analyze_answering_jpeg parse_not_food_short option.case)
  have b': "analyzeFoodImage ?wB png_file = Inr (JObject [(js ''isFood'', JBool False)])"
    by (simp only: analyze_answering_png parse_not_food_short option.case)
  have a: "analyzeFoodImage ?wA png_file = Inl (Error invalidResponseMessage)"
    by (simp only: analyze_answering_png parse_prose option.case)
  have s1: "step (Settle 0 ?wA) s =
      s\<lparr>inflight := [(1, jpeg_file)],
        error := Some (''Failed to analyze the image. '' @ invalidResponseMessage),
        isLoading := False\<rparr>"
    by (subst step_Settle_ok [where f = png_file])
       (simp_all add: s a settle_failure errorMessage_def renderContent_def truthy_def)
  have s2: "step (Settle 1 ?wB) (step (Settle 0 ?wA) s) =
      s\<lparr>inflight := [],
        error := Some (''Failed to analyze the image. '' @ invalidResponseMessage),
        isLoading := False, analysis := JObject [(js ''isFood'', JBool False)]\<rparr>"
    unfolding s1
    by (subst step_Settle_ok [where f = jpeg_file])
       (simp_all add: s b settle_success renderContent_def truthy_def truthy_prop_def
          getProp_def js_def)
  have s3: "step (Settle 0 ?wB) s0 =
      s0\<lparr>inflight := [], analysis := JObject [(js ''isFood'', JBool False)], isLoading := False\<rparr>"
    by (subst step_Settle_ok [where f = png_file])
       (simp_all add: s0 b' settle_success renderContent_def)
  have r1: "run [FileSelect (Some [png_file]), Reset, FileSelect (Some [jpeg_file]),
                Settle 0 ?wA, Settle 1 ?wB] init = step (Settle 1 ?wB) (step (Settle 0 ?wA) s)"
    by (simp add: s_def)
  have r2: "run [FileSelect (Some [png_file]), Reset, Settle 0 ?wB] init = step (Settle 0 ?wB) s0"
    by (simp add: s0_def)
  show ?thesis
    unfolding r1 r2 s2 s3
    by (simp add: s s0 renderContent_def truthy_def truthy_prop_def getProp_def js_def
          invalidResponseMessage_def)
qed

text \<open>
  Claim C5, amended. When a call in flight settles, on a mounted component, with a
  response without a block reason whose body parses to an object with \<open>isFood: false\<close>:
  the call succeeds, the controller stores the object as its analysis, clears the
  loading flag and leaves the error as it was (a success does not clear the error a
  call that settled before has set); rendering does not throw and the component stays
  mounted. With a file and a preview URL the non-food view is rendered and never the
  result view: alone when no error is set, after the error view otherwise. Without
  them (after a reset) the start view alone is rendered.
\<close>

theorem not_food_is_stored:
  assumes "mounted s"
    and "map_of (inflight s) c = Some f"
    and "fileToPart (reader w) f = Inr part"
    and "generateContent w part = Inr resp"
    and "blockReason resp = None \<or> blockReason resp = Some []"
    and "response_text resp = Some body"
    and "JSON_parse (trim body) = Some j"
    and "getProp j ''isFood'' = Some (JBool False)"
  shows "analyzeFoodImage w f = Inr j
         \<and> analysis (step (Settle c w) s) = j
         \<and> error (step (Settle c w) s) = error s
         \<and> \<not> isLoading (step (Settle c w) s)
         \<and> mounted (step (Settle c w) s)
         \<and> renderContent (step (Settle c w) s) =
             Some (if imageFile s = None \<or> imageUrl s = None then [StartView]
                   else (case error s of
                           None \<Rightarrow> []
                         | Some msg \<Rightarrow> if msg = [] then [] else [ErrorView msg])
                        @ [NonFoodView])"
proof -
  have a: "analyzeFoodImage w f = Inr j"
    using analyze_not_blocked [OF assms(3-6)] assms(7) by simp
  have t: "truthy j"
    using assms(8) by (cases j) (simp_all add: getProp_def truthy_def)
  have f: "\<not> truthy_prop (getProp j ''isFood'')"
    using assms(8) by (simp add: truthy_prop_def truthy_def)
  have r: "renderContent (settle (Inr j) s) =
      Some (if imageFile s = None \<or> imageUrl s = None then [StartView]
            else (case error s of
                    None \<Rightarrow> []
                  | Some msg \<Rightarrow> if msg = [] then [] else [ErrorView msg])
                 @ [NonFoodView])"
    using t f by (simp add: renderContent_def settle_success)
  then have ok: "renderContent (settle (analyzeFoodImage w f) s) \<noteq> None"
    unfolding a by simp
  have st: "step (Settle c w) s =
      settle (Inr j) (s\<lparr>inflight := filter (\<lambda>p. fst p \<noteq> c) (inflight s)\<rparr>)"
    using step_Settle_ok [OF assms(1,2) ok] unfolding a .
  have m: "mounted (step (Settle c w) s)"
    unfolding st using assms(1) by (simp add: settle_success)
  note fields = Settle_fields [OF assms(1,2), of w, unfolded a]
  have shown: "renderContent (step (Settle c w) s) = renderContent (settle (Inr j) s)"
    using Settle_render [OF assms(1,2), of w] unfolding a .
  show ?thesis
    using a fields m unfolding shown r by simp
qed

lemma parse_not_food:
  \<open>JSON_parse (trim ''{"isFood": false, "dishName": "Not a food item", "recipe": {"ingredients": [], "steps": []}, "nutrition": {"calories": "", "protein": "", "carbs": "", "fat": ""}, "healthierVariation": ""}'') =
     Some (JObject
       [(js ''isFood'', JBool False),
        (js ''dishName'', JString (js ''Not a food item'')),
        (js ''recipe'', JObject [(js ''ingredients'', JArray []), (js ''steps'', JArray [])]),
        (js ''nutrition'',
           JObject [(js ''calories'', JString []), (js ''protein'', JString []),
                    (js ''carbs'', JString []), (js ''fat'', JString [])]),
        (js ''healthierVariation'', JString [])])\<close>
  by code_simp

lemma selected_jpeg:
  "step (FileSelect (Some [jpeg_file])) init =
     \<lparr>imageFile = Some jpeg_file, analysis = JNull, isLoading = True, error = None,
      imageUrl = Some 0, mounted = True, cleanup = Some 0, inflight = [(0, jpeg_file)],
      nextCall = 1, nextUrl = 1, liveUrls = [0], revokeLog = []\<rparr>"
  by (simp add: run_defs)

theorem not_food_is_stored_witness:
  \<open>renderContent
     (run [FileSelect (Some [jpeg_file]),
           Settle 0 (answering ''{"isFood": false, "dishName": "Not a food item", "recipe": {"ingredients": [], "steps": []}, "nutrition": {"calories": "", "protein": "", "carbs": "", "fat": ""}, "healthierVariation": ""}'')]
        init) = Some [NonFoodView]
   \<and> error
     (run [FileSelect (Some [jpeg_file]),
           Settle 0 (answering ''{"isFood": false, "dishName": "Not a food item", "recipe": {"ingredients": [], "steps": []}, "nutrition": {"calories": "", "protein": "", "carbs": "", "fat": ""}, "healthierVariation": ""}'')]
        init) = None\<close>
proof -
  let ?body = \<open>''{"isFood": false, "dishName": "Not a food item", "recipe": {"ingredients": [], "steps": []}, "nutrition": {"calories": "", "protein": "", "carbs": "", "fat": ""}, "healthierVariation": ""}''\<close>
  let ?j = "JObject
       [(js ''isFood'', JBool False),
        (js ''dishName'', JString (js ''Not a food item'')),
        (js ''recipe'', JObject [(js ''ingredients'', JArray []), (js ''steps'', JArray [])]),
        (js ''nutrition'',
           JObject [(js ''calories'', JString []), (js ''protein'', JString []),
                    (js ''carbs'', JString []), (js ''fat'', JString [])]),
        (js ''healthierVariation'', JString [])]"
  define s where "s = step (FileSelect (Some [jpeg_file])) init"
  let ?part = "\<lparr>mimeType = ''image/jpeg'', data = base64_encode (file_bytes jpeg_file)\<rparr>"
  let ?resp = "\<lparr>blockReason = None, response_text = Some ?body\<rparr>"
  have h: "mounted s" "map_of (inflight s) 0 = Some jpeg_file"
    unfolding s_def selected_jpeg by simp_all
  have i: "imageFile s \<noteq> None" "imageUrl s \<noteq> None" "error s = None"
    unfolding s_def selected_jpeg by simp_all
  have w: "fileToPart (reader (answering ?body)) jpeg_file = Inr ?part"
    "generateContent (answering ?body) ?part = Inr ?resp"
    "blockReason ?resp = None \<or> blockReason ?resp = Some []"
    "response_text ?resp = Some ?body"
    by (simp_all add: answering_def generateContent_def fileToPart_jpeg)
  have p: "getProp ?j ''isFood'' = Some (JBool False)"
    by (simp add: getProp_def js_def)
  have r: "run [FileSelect (Some [jpeg_file]), Settle 0 (answering ?body)] init
      = step (Settle 0 (answering ?body)) s"
    by (simp add: s_def)
  show ?thesis
    unfolding r
    using not_food_is_stored [OF h w parse_not_food p] i by simp
qed

text \<open>
  Claim C9. The file-selection handler called with \<open>null\<close> or with an empty list leaves
  the whole state as it is: the five state variables do not change, and since the
  selected file does not change the effect does not run, so no call is started.
\<close>

theorem handleFileSelect_nothing_selected:
  "handleFileSelect None s = s \<and> handleFileSelect (Some []) s = s
   \<and> step (FileSelect None) s = s \<and> step (FileSelect (Some [])) s = s"
  by (simp add: step_def commit_def handleFileSelect_def)

lemma Copy_neq: "Copy r \<noteq> r"
  by (induction r) auto

text \<open>
  Claim C8. The Try Again action, with a file selected (as in the failed state, where
  the button is shown), does what selecting a new \<open>File\<close> object with the same name,
  declared type and bytes does: the error is cleared, the analysis is \<open>null\<close>, the
  loading flag is set and one more analysis call, for that object, is in flight.
\<close>

theorem try_again_reissues_image:
  assumes "mounted s" and "imageFile s = Some f"
  shows "step TryAgain s = step (FileSelect (Some [newFile f])) s
         \<and> file_name (newFile f) = file_name f
         \<and> file_type (newFile f) = file_type f
         \<and> file_bytes (newFile f) = file_bytes f
         \<and> file_ref (newFile f) \<noteq> file_ref f
         \<and> imageFile (step TryAgain s) = Some (newFile f)
         \<and> error (step TryAgain s) = None
         \<and> analysis (step TryAgain s) = JNull
         \<and> isLoading (step TryAgain s)
         \<and> inflight (step TryAgain s) = inflight s @ [(nextCall s, newFile f)]"
  using assms
  by (simp add: step_def commit_def handleFileSelect_def tryAgain_def run_effect_def
        run_cleanup_def newFile_def Copy_neq split: option.splits)

lemma failed_png:
  "step (Settle 0 (answering ''Here is your recipe: {}'')) (step (FileSelect (Some [png_file])) init) =
     \<lparr>imageFile = Some png_file, analysis = JNull, isLoading = False,
      error = Some ''Failed to analyze the image. The AI returned an invalid response. Please try again with a clearer image.'',
      imageUrl = Some 0, mounted = True, cleanup = Some 0, inflight = [],
      nextCall = 1, nextUrl = 1, liveUrls = [0], revokeLog = []\<rparr>"
proof -
  have a: "analyzeFoodImage (answering ''Here is your recipe: {}'') png_file =
      Inl (Error invalidResponseMessage)"
    by (simp only: analyze_answering_png parse_prose option.case)
  show ?thesis
    unfolding selected_png
    by (subst step_Settle_ok [where f = png_file])
       (simp_all add: a settle_failure errorMessage_def invalidResponseMessage_def
          renderContent_def truthy_def)
qed

theorem try_again_reissues_image_witness:
  "mounted (run [FileSelect (Some [png_file]), Settle 0 (answering ''Here is your recipe: {}'')] init)
   \<and> imageFile (run [FileSelect (Some [png_file]), Settle 0 (answering ''Here is your recipe: {}'')] init)
       = Some png_file
   \<and> error (run [FileSelect (Some [png_file]), Settle 0 (answering ''Here is your recipe: {}''), TryAgain] init)
       = None
   \<and> isLoading (run [FileSelect (Some [png_file]), Settle 0 (answering ''Here is your recipe: {}''), TryAgain] init)
   \<and> inflight (run [FileSelect (Some [png_file]), Settle 0 (answering ''Here is your recipe: {}''), TryAgain] init)
       = [(1, \<lparr>file_ref = Copy (Picked 0), file_name = ''pancakes.png'', file_type = ''image/png'',
                file_bytes = [0x89, 0x50, 0x4E, 0x47, 0x0D]\<rparr>)]"
proof -
  let ?s = "step (Settle 0 (answering ''Here is your recipe: {}'')) (step (FileSelect (Some [png_file])) init)"
  have h: "mounted ?s" "imageFile ?s = Some png_file"
    by (simp_all add: failed_png)
  have t: "error (step TryAgain ?s) = None" "isLoading (step TryAgain ?s)"
    "inflight (step TryAgain ?s) = inflight ?s @ [(nextCall ?s, newFile png_file)]"
    using try_again_reissues_image [OF h] by blast+
  have n: "inflight ?s @ [(nextCall ?s, newFile png_file)] =
      [(1, \<lparr>file_ref = Copy (Picked 0), file_name = ''pancakes.png'', file_type = ''image/png'',
                file_bytes = [0x89, 0x50, 0x4E, 0x47, 0x0D]\<rparr>)]"
    unfolding failed_png by (simp add: newFile_def png_file_def)
  show ?thesis
    using h t n by simp
qed

section \<open>The preview resource\<close>





















section \<open>Calls that settle late, and what is rendered\<close>

lemma parse_null: "JSON_parse (trim ''null'') = Some JNull"
  by code_simp

lemma map_of_other_call:
  "a \<noteq> b \<Longrightarrow> map_of (filter (\<lambda>p. fst p \<noteq> a) calls) b = map_of calls b"
  by (induction calls) auto


lemma parse_pancakes: "JSON_parse (trim pancakes_body) = Some pancakes"
  unfolding pancakes_body_def pancakes_def by code_simp

lemma pancakes_render:
  "truthy pancakes" "truthy_prop (getProp pancakes ''isFood'')" "resultRenders pancakes"
  by (simp_all add: pancakes_def truthy_def truthy_prop_def getProp_def js_def resultRenders_def
        validChildProp_def mapsToItems_def)

text \<open>
  After a handler that changes the state, rendering does not throw: the analysis is
  \<open>null\<close> or no file is selected. So only the settling of a call can remove the component.
\<close>

lemma handlers_render:
  assumes "mounted s"
  shows "renderContent (step (FileSelect (Some (f # rest))) s) \<noteq> None"
    and "renderContent (step Reset s) \<noteq> None"
    and "imageFile s \<noteq> None \<Longrightarrow> renderContent (step TryAgain s) \<noteq> None"
  using assms
  by (auto simp: step_def commit_def handleFileSelect_def handleReset_def tryAgain_def
        run_effect_def run_cleanup_def renderContent_def truthy_def newFile_def Copy_neq
        split: option.splits)

text \<open>
  Claim C2, as stated, fails: the first image is selected, then (after a reset, which
  does not cancel the call) the second; the call for the second image settles first,
  the call for the first image settles last, and what is stored and rendered with the
  second image is the result of the call for the first.
\<close>

theorem stale_response_counterexample:
  \<open>imageFile (run [FileSelect (Some [png_file]), Reset, FileSelect (Some [jpeg_file]),
                   Settle 1 (answering ''{"isFood": false}''),
                   Settle 0 (answering pancakes_body)] init)
     = Some jpeg_file
   \<and> analyzeFoodImage (answering ''{"isFood": false}'') jpeg_file
     = Inr (JObject [(js ''isFood'', JBool False)])
   \<and> analyzeFoodImage (answering pancakes_body) png_file = Inr pancakes
   \<and> analysis (run [FileSelect (Some [png_file]), Reset, FileSelect (Some [jpeg_file]),
                   Settle 1 (answering ''{"isFood": false}''),
                   Settle 0 (answering pancakes_body)] init)
     = pancakes
   \<and> error (run [FileSelect (Some [png_file]), Reset, FileSelect (Some [jpeg_file]),
                   Settle 1 (answering ''{"isFood": false}''),
                   Settle 0 (answering pancakes_body)] init)
     = None
   \<and> mounted (run [FileSelect (Some [png_file]), Reset, FileSelect (Some [jpeg_file]),
                   Settle 1 (answering ''{"isFood": false}''),
                   Settle 0 (answering pancakes_body)] init)
   \<and> renderContent (run [FileSelect (Some [png_file]), Reset, FileSelect (Some [jpeg_file]),
                   Settle 1 (answering ''{"isFood": false}''),
                   Settle 0 (answering pancakes_body)] init)
     = Some [ResultView pancakes]\<close>
proof -
  let ?wB = \<open>answering ''{"isFood": false}''\<close>
  let ?wA = "answering pancakes_body"
  define s where
    "s = step (FileSelect (Some [jpeg_file])) (step Reset (step (FileSelect (Some [png_file])) init))"
  have s: "s = \<lparr>imageFile = Some jpeg_file, analysis = JNull, isLoading = True, error = None,
      imageUrl = Some 1, mounted = True, cleanup = Some 1,
      inflight = [(0, png_file), (1, jpeg_file)],
      nextCall = 2, nextUrl = 2, liveUrls = [1], revokeLog = [0]\<rparr>"
    unfolding s_def by (rule reselected_jpeg)
  have b: "analyzeFoodImage ?wB jpeg_file = Inr (JObject [(js ''isFood'', JBool False)])"
    by (simp only: analyze_answering_jpeg parse_not_food_short option.case)
  have a: "analyzeFoodImage ?wA png_file = Inr pancakes"
    by (simp only: analyze_answering_png parse_pancakes option.case)
  have s1: "step (Settle 1 ?wB) s =
      s\<lparr>inflight := [(0, png_file)], analysis := JObject [(js ''isFood'', JBool False)],
        isLoading := False\<rparr>"
    by (subst step_Settle_ok [where f = jpeg_file])
       (simp_all add: s b settle_success renderContent_def truthy_def truthy_prop_def
          getProp_def js_def)
  have s2: "step (Settle 0 ?wA) (step (Settle 1 ?wB) s) =
      s\<lparr>inflight := [], analysis := pancakes, isLoading := False\<rparr>"
    unfolding s1
    by (subst step_Settle_ok [where f = png_file])
       (simp_all add: s a settle_success renderContent_def pancakes_render)
  have r: "run [FileSelect (Some [png_file]), Reset, FileSelect (Some [jpeg_file]),
                Settle 1 ?wB, Settle 0 ?wA] init = step (Settle 0 ?wA) (step (Settle 1 ?wB) s)"
    by (simp add: s_def)
  show ?thesis
    unfolding r s2 using a b by (simp add: s renderContent_def pancakes_render)
qed

lemma two_calls_settle:
  assumes "mounted s"
    and "a \<noteq> b"
    and "map_of (inflight s) a = Some fA"
    and "map_of (inflight s) b = Some fB"
  shows "mounted (step (Settle a wA) s) = (renderContent (settle (analyzeFoodImage wA fA) s) \<noteq> None)"
    and "\<not> mounted (step (Settle a wA) s) \<Longrightarrow>
           step (Settle b wB) (step (Settle a wA) s) = step (Settle a wA) s"
    and "mounted (step (Settle a wA) s) \<Longrightarrow>
           analysis (step (Settle b wB) (step (Settle a wA) s)) =
             (case analyzeFoodImage wB fB of
                Inr r \<Rightarrow> r
              | Inl e \<Rightarrow> (case analyzeFoodImage wA fA of Inr r' \<Rightarrow> r' | Inl e' \<Rightarrow> analysis s))
           \<and> error (step (Settle b wB) (step (Settle a wA) s)) =
             (case analyzeFoodImage wB fB of
                Inl e \<Rightarrow> Some (''Failed to analyze the image. '' @ errorMessage e)
              | Inr r \<Rightarrow>
                  (case analyzeFoodImage wA fA of
                     Inl e' \<Rightarrow> Some (''Failed to analyze the image. '' @ errorMessage e')
                   | Inr r' \<Rightarrow> error s))
           \<and> \<not> isLoading (step (Settle b wB) (step (Settle a wA) s))
           \<and> imageFile (step (Settle b wB) (step (Settle a wA) s)) = imageFile s"
proof -
  let ?s1 = "step (Settle a wA) s"
  note f1 = Settle_fields [OF assms(1,3), of wA]
  show "mounted ?s1 = (renderContent (settle (analyzeFoodImage wA fA) s) \<noteq> None)"
    using Settle_render [OF assms(1,3), of wA] assms(1)
    unfolding step_Settle [OF assms(1,3)]
    by (simp add: rendered_mounted renderContent_rendered settle_fields)
  show "\<not> mounted ?s1 \<Longrightarrow> step (Settle b wB) ?s1 = ?s1"
    by (simp add: step_def)
  assume m1: "mounted ?s1"
  have c1: "map_of (inflight ?s1) b = Some fB"
    using f1 assms(2,4) by (simp add: map_of_other_call)
  note f2 = Settle_fields [OF m1 c1, of wB]
  show "analysis (step (Settle b wB) ?s1) =
             (case analyzeFoodImage wB fB of
                Inr r \<Rightarrow> r
              | Inl e \<Rightarrow> (case analyzeFoodImage wA fA of Inr r' \<Rightarrow> r' | Inl e' \<Rightarrow> analysis s))
           \<and> error (step (Settle b wB) ?s1) =
             (case analyzeFoodImage wB fB of
                Inl e \<Rightarrow> Some (''Failed to analyze the image. '' @ errorMessage e)
              | Inr r \<Rightarrow>
                  (case analyzeFoodImage wA fA of
                     Inl e' \<Rightarrow> Some (''Failed to analyze the image. '' @ errorMessage e')
                   | Inr r' \<Rightarrow> error s))
           \<and> \<not> isLoading (step (Settle b wB) ?s1)
           \<and> imageFile (step (Settle b wB) ?s1) = imageFile s"
    using f1 f2
    by (cases "analyzeFoodImage wA fA"; cases "analyzeFoodImage wB fB") simp_all
qed

lemma calls_fresh_init: "calls_fresh init"
  by (simp add: calls_fresh_def init_def)

lemma calls_fresh_commit:
  assumes "calls_fresh s" and "inflight t = inflight s" and "nextCall t = nextCall s"
  shows "calls_fresh (commit before t)"
proof -
  have "list_all (\<lambda>p. fst p < Suc (nextCall s)) (inflight s)"
    using assms(1) by (auto simp: calls_fresh_def list_all_iff)
  then show ?thesis
    using assms
    by (simp add: calls_fresh_def commit_def run_effect_def run_cleanup_def
          split: option.splits)
qed

lemma calls_fresh_settle: "calls_fresh (settle outcome s) = calls_fresh s"
  by (cases outcome) (simp_all add: settle_def calls_fresh_def)

lemma calls_fresh_rendered: "calls_fresh (rendered s) = calls_fresh s"
  by (simp add: calls_fresh_def rendered_fields)

lemma calls_fresh_step: "calls_fresh s \<Longrightarrow> calls_fresh (step ev s)"
proof (cases "mounted s")
  case False
  assume "calls_fresh s"
  then show ?thesis using False by (simp add: step_def)
next
  case True
  assume c: "calls_fresh s"
  show ?thesis
  proof (cases ev)
    case (FileSelect files)
    have "calls_fresh (commit (imageFile s) (handleFileSelect files s))"
      by (rule calls_fresh_commit [OF c])
         (simp_all add: handleFileSelect_def split: option.splits list.splits)
    then show ?thesis using True FileSelect by (simp add: step_def)
  next
    case Reset
    have "calls_fresh (commit (imageFile s) (handleReset s))"
      by (rule calls_fresh_commit [OF c]) (simp_all add: handleReset_def)
    then show ?thesis using True Reset by (simp add: step_def)
  next
    case TryAgain
    have "calls_fresh (commit (imageFile s) (tryAgain s))"
      by (rule calls_fresh_commit [OF c]) (simp_all add: tryAgain_def split: option.splits)
    then show ?thesis using True TryAgain by (simp add: step_def)
  next
    case (Settle n w)
    have "list_all (\<lambda>p. fst p < nextCall s) (filter (\<lambda>p. fst p \<noteq> n) (inflight s))"
      using c by (auto simp: calls_fresh_def list_all_iff)
    then have "calls_fresh (s\<lparr>inflight := filter (\<lambda>p. fst p \<noteq> n) (inflight s)\<rparr>)"
      by (simp add: calls_fresh_def)
    then show ?thesis
      using c True Settle
      by (simp add: step_def calls_fresh_settle calls_fresh_rendered split: option.splits)
  next
    case Unmount
    show ?thesis
      using c True Unmount
      by (simp add: step_def calls_fresh_def unmount_def run_cleanup_def split: option.splits)
  qed
qed

lemma calls_fresh_run: "calls_fresh s \<Longrightarrow> calls_fresh (run evs s)"
  by (induction evs arbitrary: s) (simp_all add: calls_fresh_step)

lemma calls_fresh_reachable: "calls_fresh (run evs init)"
  by (rule calls_fresh_run [OF calls_fresh_init])


lemma select_new_file:
  assumes "mounted s0"
    and "map_option file_ref (imageFile s0) \<noteq> Some (file_ref f)"
  shows "mounted (step (FileSelect (Some (f # rest))) s0)
         \<and> imageFile (step (FileSelect (Some (f # rest))) s0) = Some f
         \<and> imageUrl (step (FileSelect (Some (f # rest))) s0) = Some (nextUrl s0)
         \<and> analysis (step (FileSelect (Some (f # rest))) s0) = JNull
         \<and> error (step (FileSelect (Some (f # rest))) s0) = None
         \<and> isLoading (step (FileSelect (Some (f # rest))) s0)
         \<and> inflight (step (FileSelect (Some (f # rest))) s0) = inflight s0 @ [(nextCall s0, f)]"
  using assms
  by (simp add: step_def commit_def handleFileSelect_def run_effect_def run_cleanup_def
        split: option.splits)

text \<open>
  With a file and a preview URL, in a state that renders: whether the state after a
  settled call renders depends on the result of that call alone.
\<close>

lemma settle_render:
  assumes "imageFile s \<noteq> None" and "imageUrl s \<noteq> None" and "renderContent s \<noteq> None"
  shows "(renderContent (settle outcome s) \<noteq> None) =
           (\<forall>r. outcome = Inr r \<longrightarrow>
                truthy r \<and> truthy_prop (getProp r ''isFood'') \<longrightarrow> resultRenders r)"
  using assms
  by (cases outcome) (auto simp: settle_def renderContent_def split: if_splits)

lemma Settle_mounted:
  assumes "mounted s" and "map_of (inflight s) c = Some f"
  shows "mounted (step (Settle c w) s) = (renderContent (settle (analyzeFoodImage w f) s) \<noteq> None)"
    and "mounted (step (Settle c w) s) \<Longrightarrow> renderContent (step (Settle c w) s) \<noteq> None"
proof -
  show m: "mounted (step (Settle c w) s) = (renderContent (settle (analyzeFoodImage w f) s) \<noteq> None)"
    using Settle_render [OF assms, of w] assms(1)
    unfolding step_Settle [OF assms]
    by (simp add: rendered_mounted renderContent_rendered settle_fields)
  show "mounted (step (Settle c w) s) \<Longrightarrow> renderContent (step (Settle c w) s) \<noteq> None"
    unfolding m Settle_render [OF assms] .
qed

lemma fresh_call_unused:
  assumes "calls_fresh s"
  shows "map_of (inflight s) (nextCall s) = None"
proof -
  have "nextCall s \<notin> fst ` set (inflight s)"
    using assms by (auto simp: calls_fresh_def list_all_iff)
  then show ?thesis by (simp add: map_of_eq_None_iff)
qed

lemma known_call_old:
  assumes "calls_fresh s" and "map_of (inflight s) a = Some f"
  shows "a < nextCall s"
proof -
  have "(a, f) \<in> set (inflight s)" using assms(2) by (rule map_of_SomeD)
  then show ?thesis using assms(1) by (auto simp: calls_fresh_def list_all_iff)
qed



text \<open>
  Claim C2, amended. When a new file \<open>B\<close> is selected while the call \<open>a\<close> for a file \<open>A\<close>
  is in flight, both calls are in flight afterwards, and each is applied when it
  settles, with no check that it is the current one. A settled call removes the
  component exactly when its result is a food object that the result block cannot
  render; the call that settles after that changes nothing. Otherwise, once both have
  settled, in either order: the analysis is the result of the call that settled last
  if it succeeded, else that of the call that settled first if it succeeded, else
  \<open>null\<close>; the error is the message of the call that settled last if it failed, else
  that of the call that settled first if it failed, else \<open>null\<close>; the loading flag is
  cleared, the selected file is \<open>B\<close>, and the component is still there exactly when
  the result of the call that settled last can be rendered.
\<close>

theorem each_settled_call_is_applied:
  assumes "s0 = run evs init"
    and "mounted s0"
    and "map_of (inflight s0) a = Some fA"
    and "map_option file_ref (imageFile s0) \<noteq> Some (file_ref fB)"
    and "s = step (FileSelect (Some (fB # rest))) s0"
    and "b = nextCall s0"
  shows "imageFile s = Some fB \<and> a \<noteq> b
         \<and> map_of (inflight s) a = Some fA \<and> map_of (inflight s) b = Some fB
         \<and> mounted (step (Settle a wA) s) =
             (\<forall>r. analyzeFoodImage wA fA = Inr r \<longrightarrow>
                  truthy r \<and> truthy_prop (getProp r ''isFood'') \<longrightarrow> resultRenders r)
         \<and> mounted (step (Settle b wB) s) =
             (\<forall>r. analyzeFoodImage wB fB = Inr r \<longrightarrow>
                  truthy r \<and> truthy_prop (getProp r ''isFood'') \<longrightarrow> resultRenders r)
         \<and> (\<not> mounted (step (Settle a wA) s) \<longrightarrow>
              step (Settle b wB) (step (Settle a wA) s) = step (Settle a wA) s)
         \<and> (\<not> mounted (step (Settle b wB) s) \<longrightarrow>
              step (Settle a wA) (step (Settle b wB) s) = step (Settle b wB) s)
         \<and> (mounted (step (Settle a wA) s) \<longrightarrow>
              analysis (step (Settle b wB) (step (Settle a wA) s)) =
                (case analyzeFoodImage wB fB of
                   Inr r \<Rightarrow> r
                 | Inl e \<Rightarrow> (case analyzeFoodImage wA fA of Inr r' \<Rightarrow> r' | Inl e' \<Rightarrow> JNull))
              \<and> error (step (Settle b wB) (step (Settle a wA) s)) =
                (case analyzeFoodImage wB fB of
                   Inl e \<Rightarrow> Some (''Failed to analyze the image. '' @ errorMessage e)
                 | Inr r \<Rightarrow>
                     (case analyzeFoodImage wA fA of
                        Inl e' \<Rightarrow> Some (''Failed to analyze the image. '' @ errorMessage e')
                      | Inr r' \<Rightarrow> None))
              \<and> \<not> isLoading (step (Settle b wB) (step (Settle a wA) s))
              \<and> imageFile (step (Settle b wB) (step (Settle a wA) s)) = Some fB
              \<and> mounted (step (Settle b wB) (step (Settle a wA) s)) =
                  (\<forall>r. analyzeFoodImage wB fB = Inr r \<longrightarrow>
                       truthy r \<and> truthy_prop (getProp r ''isFood'') \<longrightarrow> resultRenders r))
         \<and> (mounted (step (Settle b wB) s) \<longrightarrow>
              analysis (step (Settle a wA) (step (Settle b wB) s)) =
                (case analyzeFoodImage wA fA of
                   Inr r \<Rightarrow> r
                 | Inl e \<Rightarrow> (case analyzeFoodImage wB fB of Inr r' \<Rightarrow> r' | Inl e' \<Rightarrow> JNull))
              \<and> error (step (Settle a wA) (step (Settle b wB) s)) =
                (case analyzeFoodImage wA fA of
                   Inl e \<Rightarrow> Some (''Failed to analyze the image. '' @ errorMessage e)
                 | Inr r \<Rightarrow>
                     (case analyzeFoodImage wB fB of
                        Inl e' \<Rightarrow> Some (''Failed to analyze the image. '' @ errorMessage e')
                      | Inr r' \<Rightarrow> None))
              \<and> \<not> isLoading (step (Settle a wA) (step (Settle b wB) s))
              \<and> imageFile (step (Settle a wA) (step (Settle b wB) s)) = Some fB
              \<and> mounted (step (Settle a wA) (step (Settle b wB) s)) =
                  (\<forall>r. analyzeFoodImage wA fA = Inr r \<longrightarrow>
                       truthy r \<and> truthy_prop (getProp r ''isFood'') \<longrightarrow> resultRenders r))"
proof -
  have fresh: "calls_fresh s0" unfolding assms(1) by (rule calls_fresh_reachable)
  note sel = select_new_file [OF assms(2,4), of rest, folded assms(5)]
  have m: "mounted s" and f: "imageFile s = Some fB" and u: "imageUrl s \<noteq> None"
    and an: "analysis s = JNull"
    and er: "error s = None" and fl: "inflight s = inflight s0 @ [(nextCall s0, fB)]"
    using sel by simp_all
  have rs: "renderContent s \<noteq> None"
    unfolding assms(5) by (rule handlers_render(1) [OF assms(2)])
  have f': "imageFile s \<noteq> None" using f by simp
  have ab: "a \<noteq> b"
    using known_call_old [OF fresh assms(3)] assms(6) by simp
  have ca: "map_of (inflight s) a = Some fA"
    unfolding fl using assms(3) by (simp add: map_add_Some_iff)
  have cb: "map_of (inflight s) b = Some fB"
    unfolding fl assms(6) using fresh_call_unused [OF fresh] by (simp add: map_add_Some_iff)
  have second: "mounted (step (Settle d wD) (step (Settle c wC) s)) =
      (\<forall>r. analyzeFoodImage wD fD = Inr r \<longrightarrow>
           truthy r \<and> truthy_prop (getProp r ''isFood'') \<longrightarrow> resultRenders r)"
    if c: "map_of (inflight s) c = Some fC" and d: "map_of (inflight s) d = Some fD"
      and cd: "c \<noteq> d" and m1: "mounted (step (Settle c wC) s)"
    for c d fC fD wC wD
  proof -
    note f1 = Settle_fields [OF m c, of wC]
    have d1: "map_of (inflight (step (Settle c wC) s)) d = Some fD"
      using f1 cd d by (simp add: map_of_other_call)
    have i1: "imageFile (step (Settle c wC) s) \<noteq> None" "imageUrl (step (Settle c wC) s) \<noteq> None"
      using f1 f' u by simp_all
    show ?thesis
      unfolding Settle_mounted(1) [OF m1 d1]
      by (rule settle_render [OF i1 Settle_mounted(2) [OF m c m1]])
  qed
  have ma: "mounted (step (Settle a wA) s) =
      (\<forall>r. analyzeFoodImage wA fA = Inr r \<longrightarrow>
           truthy r \<and> truthy_prop (getProp r ''isFood'') \<longrightarrow> resultRenders r)"
    unfolding Settle_mounted(1) [OF m ca] by (rule settle_render [OF f' u rs])
  have mb: "mounted (step (Settle b wB) s) =
      (\<forall>r. analyzeFoodImage wB fB = Inr r \<longrightarrow>
           truthy r \<and> truthy_prop (getProp r ''isFood'') \<longrightarrow> resultRenders r)"
    unfolding Settle_mounted(1) [OF m cb] by (rule settle_render [OF f' u rs])
  note first_a = two_calls_settle(2,3) [OF m ab ca cb, of wA wB, unfolded an er f]
  note first_b = two_calls_settle(2,3) [OF m ab [symmetric] cb ca, of wB wA, unfolded an er f]
  note sa = second [OF ca cb ab, of wA wB]
  note sb = second [OF cb ca ab [symmetric], of wB wA]
  show ?thesis
    apply (intro conjI impI)
    using f ab ca cb ma mb first_a first_b sa sb by blast+
qed

theorem each_settled_call_is_applied_witness:
  \<open>analysis (run [FileSelect (Some [png_file]), Reset, FileSelect (Some [jpeg_file]),
                  Settle 0 (answering ''Here is your recipe: {}''),
                  Settle 1 (answering ''{"isFood": false}'')] init)
     = JObject [(js ''isFood'', JBool False)]
   \<and> error (run [FileSelect (Some [png_file]), Reset, FileSelect (Some [jpeg_file]),
                  Settle 0 (answering ''Here is your recipe: {}''),
                  Settle 1 (answering ''{"isFood": false}'')] init)
     = Some ''Failed to analyze the image. The AI returned an invalid response. Please try again with a clearer image.''\<close>
proof -
  let ?wA = \<open>answering ''Here is your recipe: {}''\<close>
  let ?wB = \<open>answering ''{"isFood": false}''\<close>
  define s0 where "s0 = run [FileSelect (Some [png_file]), Reset] init"
  define s where "s = step (FileSelect (Some [jpeg_file])) s0"
  have e: "s0 = step Reset (step (FileSelect (Some [png_file])) init)"
    by (simp add: s0_def)
  have h: "mounted s0" "map_of (inflight s0) 0 = Some png_file"
    "map_option file_ref (imageFile s0) \<noteq> Some (file_ref jpeg_file)"
    "1 = nextCall s0"
    unfolding e reset_png by simp_all
  have b: "analyzeFoodImage ?wB jpeg_file = Inr (JObject [(js ''isFood'', JBool False)])"
    by (simp only: analyze_answering_jpeg parse_not_food_short option.case)
  have a: "analyzeFoodImage ?wA png_file = Inl (Error invalidResponseMessage)"
    by (simp only: analyze_answering_png parse_prose option.case)
  have r: "run [FileSelect (Some [png_file]), Reset, FileSelect (Some [jpeg_file]),
                Settle 0 ?wA, Settle 1 ?wB] init = step (Settle 1 ?wB) (step (Settle 0 ?wA) s)"
    by (simp add: s_def s0_def)
  note t = each_settled_call_is_applied [OF s0_def h(1-3) s_def h(4),
      where wA = ?wA and wB = ?wB, unfolded a b]
  have m: "mounted (step (Settle 0 ?wA) s)"
    using t by simp
  have "analysis (step (Settle 1 ?wB) (step (Settle 0 ?wA) s)) = JObject [(js ''isFood'', JBool False)]"
    using t m by simp
  moreover have "error (step (Settle 1 ?wB) (step (Settle 0 ?wA) s)) =
      Some ''Failed to analyze the image. The AI returned an invalid response. Please try again with a clearer image.''"
    using t m by (simp add: errorMessage_def invalidResponseMessage_def)
  ultimately show ?thesis unfolding r by (rule conjI)
qed



text \<open>
  Claim C6, as stated, fails. A body \<open>null\<close> is valid JSON: the call succeeds with
  \<open>null\<close> and no view at all is rendered beside the image. And when the call of an
  image selected before settles after a newer selection, two views are rendered at
  once (here the error view and the non-food view).
\<close>

theorem one_view_counterexample:
  \<open>renderContent (run [FileSelect (Some [png_file]), Settle 0 (answering ''null'')] init) = Some []
   \<and> renderContent
       (run [FileSelect (Some [png_file]), Reset, FileSelect (Some [jpeg_file]),
             Settle 0 (answering ''Here is your recipe: {}''),
             Settle 1 (answering ''{"isFood": false}'')] init)
     = Some [ErrorView ''Failed to analyze the image. The AI returned an invalid response. Please try again with a clearer image.'',
             NonFoodView]\<close>
proof -
  let ?wA = \<open>answering ''Here is your recipe: {}''\<close>
  let ?wB = \<open>answering ''{"isFood": false}''\<close>
  define s where
    "s = step (FileSelect (Some [jpeg_file])) (step Reset (step (FileSelect (Some [png_file])) init))"
  define p where "p = step (FileSelect (Some [png_file])) init"
  have s: "s = \<lparr>imageFile = Some jpeg_file, analysis = JNull, isLoading = True, error = None,
      imageUrl = Some 1, mounted = True, cleanup = Some 1,
      inflight = [(0, png_file), (1, jpeg_file)],
      nextCall = 2, nextUrl = 2, liveUrls = [1], revokeLog = [0]\<rparr>"
    unfolding s_def by (rule reselected_jpeg)
  have p: "p = \<lparr>imageFile = Some png_file, analysis = JNull, isLoading = True, error = None,
      imageUrl = Some 0, mounted = True, cleanup = Some 0, inflight = [(0, png_file)],
      nextCall = 1, nextUrl = 1, liveUrls = [0], revokeLog = []\<rparr>"
    unfolding p_def by (rule selected_png)
  have n: "analyzeFoodImage (answering ''null'') png_file = Inr JNull"
    by (simp only: analyze_answering_png parse_null option.case)
  have p1: "step (Settle 0 (answering ''null'')) p =
      p\<lparr>inflight := [], analysis := JNull, isLoading := False\<rparr>"
    by (subst step_Settle_ok [where f = png_file])
       (simp_all add: p n settle_success renderContent_def truthy_def)
  have r0: "run [FileSelect (Some [png_file]), Settle 0 (answering ''null'')] init =
      step (Settle 0 (answering ''null'')) p"
    by (simp add: p_def)
  have zero: "renderContent (run [FileSelect (Some [png_file]), Settle 0 (answering ''null'')] init) = Some []"
    unfolding r0 p1 by (simp add: p renderContent_def truthy_def)
  have b: "analyzeFoodImage ?wB jpeg_file = Inr (JObject [(js ''isFood'', JBool False)])"
    by (simp only: analyze_answering_jpeg parse_not_food_short option.case)
  have a: "analyzeFoodImage ?wA png_file = Inl (Error invalidResponseMessage)"
    by (simp only: analyze_answering_png parse_prose option.case)
  have s1: "step (Settle 0 ?wA) s =
      s\<lparr>inflight := [(1, jpeg_file)],
        error := Some (''Failed to analyze the image. '' @ invalidResponseMessage),
        isLoading := False\<rparr>"
    by (subst step_Settle_ok [where f = png_file])
       (simp_all add: s a settle_failure errorMessage_def renderContent_def truthy_def)
  have s2: "step (Settle 1 ?wB) (step (Settle 0 ?wA) s) =
      s\<lparr>inflight := [],
        error := Some (''Failed to analyze the image. '' @ invalidResponseMessage),
        isLoading := False, analysis := JObject [(js ''isFood'', JBool False)]\<rparr>"
    unfolding s1
    by (subst step_Settle_ok [where f = jpeg_file])
       (simp_all add: s b settle_success renderContent_def truthy_def truthy_prop_def
          getProp_def js_def)
  have r: "run [FileSelect (Some [png_file]), Reset, FileSelect (Some [jpeg_file]),
                Settle 0 ?wA, Settle 1 ?wB] init = step (Settle 1 ?wB) (step (Settle 0 ?wA) s)"
    by (simp add: s_def)
  have two: "renderContent (step (Settle 1 ?wB) (step (Settle 0 ?wA) s))
     = Some [ErrorView ''Failed to analyze the image. The AI returned an invalid response. Please try again with a clearer image.'',
             NonFoodView]"
    unfolding s2
    by (simp add: s renderContent_def truthy_def truthy_prop_def getProp_def js_def
          invalidResponseMessage_def)
  show ?thesis
    unfolding r using zero two by (intro conjI)
qed


text \<open>
  Claim C6, amended. \<open>renderContent\<close> is a function of the five state variables alone.
  Without a file or without a preview URL it renders the start view alone. With both,
  it throws exactly when the analysis is truthy with a truthy \<open>isFood\<close> and the result
  block cannot be rendered; otherwise it renders the loading view if and only if the
  loading flag is set, the error view if and only if the error is a non-empty string,
  the non-food view if and only if the analysis is truthy with a falsy \<open>isFood\<close>, the
  result view if and only if the analysis is truthy with a truthy \<open>isFood\<close>, and never
  the start view. The number of views is the number of the three variables (loading
  flag, error, analysis) that are set: exactly one view where exactly one is set.
\<close>

theorem renderContent_by_fields:
  "(imageFile s = imageFile t \<and> imageUrl s = imageUrl t \<and> isLoading s = isLoading t
      \<and> error s = error t \<and> analysis s = analysis t
      \<longrightarrow> renderContent s = renderContent t)
   \<and> (imageFile s = None \<or> imageUrl s = None \<longrightarrow> renderContent s = Some [StartView])
   \<and> (imageFile s \<noteq> None \<and> imageUrl s \<noteq> None \<longrightarrow>
        (renderContent s = None) =
          (truthy (analysis s) \<and> truthy_prop (getProp (analysis s) ''isFood'')
           \<and> \<not> resultRenders (analysis s))
        \<and> (\<forall>vs. renderContent s = Some vs \<longrightarrow>
              StartView \<notin> set vs
              \<and> (LoadingView \<in> set vs) = isLoading s
              \<and> (\<exists>m. ErrorView m \<in> set vs) = (\<exists>m. error s = Some m \<and> m \<noteq> [])
              \<and> (NonFoodView \<in> set vs) =
                  (truthy (analysis s) \<and> \<not> truthy_prop (getProp (analysis s) ''isFood''))
              \<and> (\<exists>j. ResultView j \<in> set vs) =
                  (truthy (analysis s) \<and> truthy_prop (getProp (analysis s) ''isFood''))
              \<and> length vs =
                  (if isLoading s then 1 else 0)
                  + (if \<exists>m. error s = Some m \<and> m \<noteq> [] then 1 else 0)
                  + (if truthy (analysis s) then 1 else 0)))"
proof (intro conjI impI)
  assume "imageFile s = imageFile t \<and> imageUrl s = imageUrl t \<and> isLoading s = isLoading t
      \<and> error s = error t \<and> analysis s = analysis t"
  then show "renderContent s = renderContent t"
    by (simp add: renderContent_def)
next
  assume "imageFile s = None \<or> imageUrl s = None"
  then show "renderContent s = Some [StartView]"
    by (auto simp: renderContent_def)
next
  assume "imageFile s \<noteq> None \<and> imageUrl s \<noteq> None"
  then show "(renderContent s = None) =
          (truthy (analysis s) \<and> truthy_prop (getProp (analysis s) ''isFood'')
           \<and> \<not> resultRenders (analysis s))"
    by (simp add: renderContent_def)
next
  assume shown: "imageFile s \<noteq> None \<and> imageUrl s \<noteq> None"
  show "\<forall>vs. renderContent s = Some vs \<longrightarrow>
              StartView \<notin> set vs
              \<and> (LoadingView \<in> set vs) = isLoading s
              \<and> (\<exists>m. ErrorView m \<in> set vs) = (\<exists>m. error s = Some m \<and> m \<noteq> [])
              \<and> (NonFoodView \<in> set vs) =
                  (truthy (analysis s) \<and> \<not> truthy_prop (getProp (analysis s) ''isFood''))
              \<and> (\<exists>j. ResultView j \<in> set vs) =
                  (truthy (analysis s) \<and> truthy_prop (getProp (analysis s) ''isFood''))
              \<and> length vs =
                  (if isLoading s then 1 else 0)
                  + (if \<exists>m. error s = Some m \<and> m \<noteq> [] then 1 else 0)
                  + (if truthy (analysis s) then 1 else 0)"
  proof (intro allI impI)
    fix vs
    assume r: "renderContent s = Some vs"
    let ?l = "if isLoading s then [LoadingView] else []"
    let ?e = "case error s of None \<Rightarrow> [] | Some msg \<Rightarrow> if msg = [] then [] else [ErrorView msg]"
    let ?n = "if truthy (analysis s) \<and> \<not> truthy_prop (getProp (analysis s) ''isFood'')
              then [NonFoodView] else []"
    let ?r = "if truthy (analysis s) \<and> truthy_prop (getProp (analysis s) ''isFood'')
              then [ResultView (analysis s)] else []"
    have vs: "vs = ?l @ ?e @ ?n @ ?r"
      using r shown by (simp add: renderContent_def split: if_splits)
    show "StartView \<notin> set vs
              \<and> (LoadingView \<in> set vs) = isLoading s
              \<and> (\<exists>m. ErrorView m \<in> set vs) = (\<exists>m. error s = Some m \<and> m \<noteq> [])
              \<and> (NonFoodView \<in> set vs) =
                  (truthy (analysis s) \<and> \<not> truthy_prop (getProp (analysis s) ''isFood''))
              \<and> (\<exists>j. ResultView j \<in> set vs) =
                  (truthy (analysis s) \<and> truthy_prop (getProp (analysis s) ''isFood''))
              \<and> length vs =
                  (if isLoading s then 1 else 0)
                  + (if \<exists>m. error s = Some m \<and> m \<noteq> [] then 1 else 0)
                  + (if truthy (analysis s) then 1 else 0)"
      unfolding vs by (cases "error s") auto
  qed
qed

theorem renderContent_by_fields_witness:
  "renderContent init = Some [StartView]
   \<and> imageFile (step (FileSelect (Some [png_file])) init) \<noteq> None
   \<and> imageUrl (step (FileSelect (Some [png_file])) init) \<noteq> None
   \<and> renderContent (step (FileSelect (Some [png_file])) init) = Some [LoadingView]
   \<and> length [LoadingView] = (1::nat)"
proof -
  let ?s = "step (FileSelect (Some [png_file])) init"
  have i: "imageFile init = None \<or> imageUrl init = None" by (simp add: init_def)
  have start: "renderContent init = Some [StartView]"
    using renderContent_by_fields [of init init] i by blast
  have shown: "imageFile ?s \<noteq> None \<and> imageUrl ?s \<noteq> None"
    by (simp add: selected_png)
  have r: "renderContent ?s = Some [LoadingView]"
    by (simp add: selected_png renderContent_def truthy_def)
  have "length [LoadingView] =
      (if isLoading ?s then 1 else 0)
      + (if \<exists>m. error ?s = Some m \<and> m \<noteq> [] then 1 else 0)
      + (if truthy (analysis ?s) then 1 else (0::nat))"
    using renderContent_by_fields [of ?s ?s] shown r by blast
  then show ?thesis using start shown r by simp
qed

end
